theory Spec2Isabelle
  imports Complex_Main "HOL-Library.AList" "HOL-Library.Sublist"
begin

section \<open>Paths (the POSIX functions of Node's path module used by the repository)\<close>

text \<open>
  The repository calls \<^verbatim>\<open>path.resolve\<close>, \<^verbatim>\<open>path.isAbsolute\<close>, \<^verbatim>\<open>path.dirname\<close> and
  \<^verbatim>\<open>path.extname\<close> of the Node runtime. They are modelled after the runtime's POSIX
  implementation: a path is a string, the separator is the slash.
\<close>

fun split_slash :: "string \<Rightarrow> string \<Rightarrow> string list" where
  "split_slash cur [] = [cur]"
| "split_slash cur (c # cs) =
     (if c = CHR ''/'' then cur # split_slash [] cs else split_slash (cur @ [c]) cs)"

fun join_slash :: "string list \<Rightarrow> string" where
  "join_slash [] = []"
| "join_slash [s] = s"
| "join_slash (s # t # ss) = s @ ''/'' @ join_slash (t # ss)"

text \<open>
  \<^verbatim>\<open>normalizeString(path, allowAboveRoot)\<close>: empty segments and \<^verbatim>\<open>.\<close> are dropped, \<^verbatim>\<open>..\<close>
  removes the segment before it; at the root it is dropped, or kept when the path is
  relative (\<open>allowAboveRoot\<close>). The first argument is the stack of segments kept so far, last first.
\<close>

fun normalize_segs :: "bool \<Rightarrow> string list \<Rightarrow> string list \<Rightarrow> string list" where
  "normalize_segs allowAboveRoot acc [] = rev acc"
| "normalize_segs allowAboveRoot acc (s # ss) =
     (if s = [] \<or> s = ''.'' then normalize_segs allowAboveRoot acc ss
      else if s = ''..'' then
        (case acc of
           [] \<Rightarrow> normalize_segs allowAboveRoot (if allowAboveRoot then [''..''] else []) ss
         | a # below \<Rightarrow>
             if a = ''..'' then
               normalize_segs allowAboveRoot (if allowAboveRoot then ''..'' # acc else acc) ss
             else normalize_segs allowAboveRoot below ss)
      else normalize_segs allowAboveRoot (s # acc) ss)"

definition isAbsolute :: "string \<Rightarrow> bool" where
  "isAbsolute p = (case p of [] \<Rightarrow> False | c # _ \<Rightarrow> c = CHR ''/'')"

text \<open>
  The loop of \<^verbatim>\<open>path.resolve(...args)\<close>: the arguments are read from the last to the first,
  each non-empty one is put in front of the path built so far, and the loop stops at the
  first absolute one; when none is absolute the working directory of the process is used.
  The second component says whether an absolute path was reached.
\<close>

fun resolve_loop :: "string \<Rightarrow> string list \<Rightarrow> string \<Rightarrow> string \<times> bool" where
  "resolve_loop cwd [] resolved =
     (if cwd = [] then (resolved, False) else (cwd @ ''/'' @ resolved, isAbsolute cwd))"
| "resolve_loop cwd (p # ps) resolved =
     (if p = [] then resolve_loop cwd ps resolved
      else if isAbsolute p then (p @ ''/'' @ resolved, True)
      else resolve_loop cwd ps (p @ ''/'' @ resolved))"

definition path_resolve :: "string \<Rightarrow> string list \<Rightarrow> string" where
  "path_resolve cwd args =
     (case resolve_loop cwd (rev args) [] of
        (resolved, absolute) \<Rightarrow>
          (let normalized = join_slash (normalize_segs (\<not> absolute) [] (split_slash [] resolved))
           in if absolute then ''/'' @ normalized
              else if normalized = [] then ''.'' else normalized))"

text \<open>
  \<^verbatim>\<open>path.extname\<close>: the extension of the last component of the path (trailing slashes
  are skipped): the text from its last dot on, and the empty string when the component has
  no dot, when its only dot is its first character, or when the component is \<^verbatim>\<open>..\<close>.
\<close>

definition last_component :: "string \<Rightarrow> string" where
  "last_component p =
     (case filter (\<lambda>s. s \<noteq> []) (split_slash [] p) of [] \<Rightarrow> [] | s # ss \<Rightarrow> last (s # ss))"

fun from_last_dot :: "string \<Rightarrow> string option" where
  "from_last_dot [] = None"
| "from_last_dot (c # cs) =
     (case from_last_dot cs of
        Some e \<Rightarrow> Some e
      | None \<Rightarrow> if c = CHR ''.'' then Some (c # cs) else None)"

definition extname :: "string \<Rightarrow> string" where
  "extname p =
     (let b = last_component p in
      case from_last_dot b of
        None \<Rightarrow> []
      | Some e \<Rightarrow> if length e = length b \<or> b = ''..'' then [] else e)"

section \<open>CacheManager\<close>

record 'v CacheEntry =
  entry_value :: 'v
  timestamp :: int
  ttl :: int
  hits :: nat

datatype cache_event =
    EvSet string | EvHit string | EvMiss string | EvExpired string
  | EvDelete string | EvClear | EvEvicted string | EvCleanup nat

text \<open>
  The \<^verbatim>\<open>Map\<close> of the class is an association list in insertion order: the eviction loop
  walks it in that order. Times are milliseconds (\<^verbatim>\<open>Date.now()\<close>), passed in by the caller.
\<close>

record 'v CacheManager =
  cache :: "(string \<times> 'v CacheEntry) list"
  maxSize :: int
  defaultTTL :: int
  cache_emitted :: "cache_event list"

definition CacheManager_new :: "int \<Rightarrow> int \<Rightarrow> 'v CacheManager" where
  "CacheManager_new mx dttl =
     \<lparr>cache = [], maxSize = mx, defaultTTL = dttl, cache_emitted = []\<rparr>"

text \<open>
  The score \<^verbatim>\<open>entry.hits + (Date.now() - entry.timestamp) / 1000\<close> of an entry at the
  clock reading \<open>now\<close>, in exact arithmetic (the source computes it in floating point; the
  properties below say nothing on which of several entries of equal score is chosen).
\<close>

definition score :: "int \<Rightarrow> 'v CacheEntry \<Rightarrow> real" where
  "score now entry = real (hits entry) + real_of_int (now - timestamp entry) / 1000"

text \<open>
  The loop of \<^verbatim>\<open>evictOldest\<close>. The pair of \<^verbatim>\<open>oldestKey\<close> and \<^verbatim>\<open>oldestScore\<close> is \<open>None\<close>
  while it is \<^verbatim>\<open>null\<close> and \<^verbatim>\<open>+Infinity\<close>, which every score is below. The loop reads the
  clock once per entry: \<open>clock i\<close> is the time read for the \<open>i\<close>-th entry.
\<close>

fun evict_scan ::
  "(nat \<Rightarrow> int) \<Rightarrow> nat \<Rightarrow> (string \<times> 'v CacheEntry) list \<Rightarrow> (string \<times> real) option
     \<Rightarrow> (string \<times> real) option" where
  "evict_scan clock i [] oldest = oldest"
| "evict_scan clock i ((key, entry) # rest) oldest =
     evict_scan clock (Suc i) rest
       (case oldest of
          None \<Rightarrow> Some (key, score (clock i) entry)
        | Some (oldestKey, oldestScore) \<Rightarrow>
            if score (clock i) entry < oldestScore then Some (key, score (clock i) entry)
            else oldest)"

text \<open>
  The scores as one run of the loop computes them: the \<open>i\<close>-th entry with the clock reading
  taken for it. (Not part of the source: the yardstick for what the loop selects.)
\<close>

fun loop_scores ::
  "(nat \<Rightarrow> int) \<Rightarrow> nat \<Rightarrow> (string \<times> 'v CacheEntry) list \<Rightarrow> (string \<times> real) list" where
  "loop_scores clock i [] = []"
| "loop_scores clock i ((key, entry) # rest) =
     (key, score (clock i) entry) # loop_scores clock (Suc i) rest"

text \<open>The test \<^verbatim>\<open>if (oldestKey)\<close> is false for \<^verbatim>\<open>null\<close> and for the empty string.\<close>

definition evictOldest :: "(nat \<Rightarrow> int) \<Rightarrow> 'v CacheManager \<Rightarrow> 'v CacheManager" where
  "evictOldest clock c =
     (case evict_scan clock 0 (cache c) None of
        None \<Rightarrow> c
      | Some (oldestKey, oldestScore) \<Rightarrow>
          if oldestKey \<noteq> [] then
            c\<lparr>cache := AList.delete oldestKey (cache c),
              cache_emitted := cache_emitted c @ [EvEvicted oldestKey]\<rparr>
          else c)"

text \<open>
  \<^verbatim>\<open>set(key, value, ttl?)\<close>: \<open>clock\<close> is read by the eviction loop, \<open>now\<close> is the time
  stamped on the new entry. \<^verbatim>\<open>ttl || this.defaultTTL\<close> takes the default for a missing
  and for a zero ttl.
\<close>

definition cm_set ::
  "(nat \<Rightarrow> int) \<Rightarrow> int \<Rightarrow> string \<Rightarrow> 'v \<Rightarrow> int option \<Rightarrow> 'v CacheManager \<Rightarrow> 'v CacheManager" where
  "cm_set clock now key v ttl_arg c =
     (let c1 = (if int (length (cache c)) \<ge> maxSize c then evictOldest clock c else c);
          entry = \<lparr>entry_value = v, timestamp = now,
                   ttl = (case ttl_arg of
                            None \<Rightarrow> defaultTTL c
                          | Some t \<Rightarrow> if t = 0 then defaultTTL c else t),
                   hits = 0\<rparr>
      in c1\<lparr>cache := AList.update key entry (cache c1),
            cache_emitted := cache_emitted c1 @ [EvSet key]\<rparr>)"

definition cm_get :: "int \<Rightarrow> string \<Rightarrow> 'v CacheManager \<Rightarrow> 'v option \<times> 'v CacheManager" where
  "cm_get now key c =
     (case map_of (cache c) key of
        None \<Rightarrow> (None, c\<lparr>cache_emitted := cache_emitted c @ [EvMiss key]\<rparr>)
      | Some entry \<Rightarrow>
          if now - timestamp entry > ttl entry then
            (None, c\<lparr>cache := AList.delete key (cache c),
                      cache_emitted := cache_emitted c @ [EvExpired key]\<rparr>)
          else
            (Some (entry_value entry),
             c\<lparr>cache := AList.update key (entry\<lparr>hits := hits entry + 1\<rparr>) (cache c),
               cache_emitted := cache_emitted c @ [EvHit key]\<rparr>))"

definition cm_has :: "int \<Rightarrow> string \<Rightarrow> 'v CacheManager \<Rightarrow> bool \<times> 'v CacheManager" where
  "cm_has now key c =
     (case map_of (cache c) key of
        None \<Rightarrow> (False, c)
      | Some entry \<Rightarrow>
          if now - timestamp entry > ttl entry then
            (False, c\<lparr>cache := AList.delete key (cache c)\<rparr>)
          else (True, c))"

definition cm_delete :: "string \<Rightarrow> 'v CacheManager \<Rightarrow> bool \<times> 'v CacheManager" where
  "cm_delete key c =
     (if key \<in> fst ` set (cache c) then
        (True, c\<lparr>cache := AList.delete key (cache c),
                  cache_emitted := cache_emitted c @ [EvDelete key]\<rparr>)
      else (False, c))"

definition cm_clear :: "'v CacheManager \<Rightarrow> 'v CacheManager" where
  "cm_clear c = c\<lparr>cache := [], cache_emitted := cache_emitted c @ [EvClear]\<rparr>"

text \<open>
  \<^verbatim>\<open>cleanup\<close>, the periodic sweep: one reading of the clock, a first loop that collects the
  expired keys, a second loop that deletes them and emits \<^verbatim>\<open>expired\<close> for each.
\<close>

definition expiredKeys :: "int \<Rightarrow> (string \<times> 'v CacheEntry) list \<Rightarrow> string list" where
  "expiredKeys now al =
     map fst (filter (\<lambda>(key, entry). now - timestamp entry > ttl entry) al)"

definition cleanup :: "int \<Rightarrow> 'v CacheManager \<Rightarrow> 'v CacheManager" where
  "cleanup now c =
     (let ks = expiredKeys now (cache c);
          c1 = fold (\<lambda>key c'. c'\<lparr>cache := AList.delete key (cache c'),
                                  cache_emitted := cache_emitted c' @ [EvExpired key]\<rparr>) ks c
      in if length ks > 0
         then c1\<lparr>cache_emitted := cache_emitted c1 @ [EvCleanup (length ks)]\<rparr>
         else c1)"

section \<open>NodeFileSystem\<close>

text \<open>
  \<^verbatim>\<open>path.dirname\<close>: trailing slashes are skipped, then the path is cut before its last
  slash; a path with no slash after its first character gives the root or \<^verbatim>\<open>.\<close>.
\<close>

definition dirname :: "string \<Rightarrow> string" where
  "dirname p =
     (case p of
        [] \<Rightarrow> ''.''
      | c # body \<Rightarrow>
          (let hasRoot = (c = CHR ''/'');
               stripped = rev (dropWhile (\<lambda>x. x = CHR ''/'') (rev body));
               tail_len = length (takeWhile (\<lambda>x. x \<noteq> CHR ''/'') (rev stripped))
           in if tail_len = length stripped then (if hasRoot then ''/'' else ''.'')
              else if hasRoot \<and> length stripped - tail_len = 1 then ''//''
              else take (length stripped - tail_len) p))"

datatype fs_error = PathOutside string | OsFailure string

record FileStats =
  st_isFile :: bool
  st_isDirectory :: bool
  st_size :: int
  st_mtime :: int

text \<open>
  The operating system is outside the repository. Each call of the \<^verbatim>\<open>fs\<close> module and of
  \<^verbatim>\<open>child_process\<close> is answered by a function of the record \<open>os\<close> (\<open>Inl\<close> or \<open>Some\<close>
  carries the message of a rejected call), and every file-system operation returns, beside
  its result, the calls it made, in order. \<open>os_spawn\<close> answers \<^verbatim>\<open>child_process.spawn\<close>
  for a command, its arguments and a working directory: the pid of the child, \<open>None\<close> when
  the child has no pid (the command could not be started, and \<^verbatim>\<open>childProcess.pid\<close> is
  \<^verbatim>\<open>undefined\<close>), or \<open>Inl\<close> when the call itself throws (an empty command).
\<close>

datatype os_call =
    FsReadFile string | FsMkdir string bool | FsWriteFile string string | FsReaddir string
  | FsAccess string | FsStat string | FsRmdir string | FsUnlink string

record os =
  os_cwd :: string
  env_HOME :: "string option"
  os_readFile :: "string \<Rightarrow> string + string"
  os_writeFile :: "string \<Rightarrow> string \<Rightarrow> string option"
  os_mkdir :: "string \<Rightarrow> bool \<Rightarrow> string option"
  os_readdir :: "string \<Rightarrow> string + string list"
  os_access :: "string \<Rightarrow> string option"
  os_stat :: "string \<Rightarrow> string + FileStats"
  os_rmdir :: "string \<Rightarrow> string option"
  os_unlink :: "string \<Rightarrow> string option"
  os_spawn :: "string \<Rightarrow> string list \<Rightarrow> string \<Rightarrow> string + int option"

definition NodeFileSystem_new :: "os \<Rightarrow> string \<Rightarrow> string" where
  "NodeFileSystem_new w basePath = path_resolve (os_cwd w) [basePath]"

text \<open>\<^verbatim>\<open>resolved.startsWith(this.basePath)\<close> is the prefix order of strings.\<close>

definition resolvePath :: "os \<Rightarrow> string \<Rightarrow> string \<Rightarrow> fs_error + string" where
  "resolvePath w basePath filePath =
     (let resolved = path_resolve (os_cwd w) [basePath, filePath]
      in if \<not> prefix basePath resolved then Inl (PathOutside filePath) else Inr resolved)"

definition nfs_readFile :: "os \<Rightarrow> string \<Rightarrow> string \<Rightarrow> (fs_error + string) \<times> os_call list" where
  "nfs_readFile w basePath filePath =
     (case resolvePath w basePath filePath of
        Inl e \<Rightarrow> (Inl e, [])
      | Inr fullPath \<Rightarrow>
          (case os_readFile w fullPath of
             Inl msg \<Rightarrow> (Inl (OsFailure msg), [FsReadFile fullPath])
           | Inr content \<Rightarrow> (Inr content, [FsReadFile fullPath])))"

definition nfs_writeFile ::
  "os \<Rightarrow> string \<Rightarrow> string \<Rightarrow> string \<Rightarrow> (fs_error + unit) \<times> os_call list" where
  "nfs_writeFile w basePath filePath content =
     (case resolvePath w basePath filePath of
        Inl e \<Rightarrow> (Inl e, [])
      | Inr fullPath \<Rightarrow>
          (let dir = dirname fullPath in
           case os_mkdir w dir True of
             Some msg \<Rightarrow> (Inl (OsFailure msg), [FsMkdir dir True])
           | None \<Rightarrow>
               (case os_writeFile w fullPath content of
                  Some msg \<Rightarrow>
                    (Inl (OsFailure msg), [FsMkdir dir True, FsWriteFile fullPath content])
                | None \<Rightarrow> (Inr (), [FsMkdir dir True, FsWriteFile fullPath content]))))"

definition nfs_readdir ::
  "os \<Rightarrow> string \<Rightarrow> string \<Rightarrow> (fs_error + string list) \<times> os_call list" where
  "nfs_readdir w basePath dirPath =
     (case resolvePath w basePath dirPath of
        Inl e \<Rightarrow> (Inl e, [])
      | Inr fullPath \<Rightarrow>
          (case os_readdir w fullPath of
             Inl msg \<Rightarrow> (Inl (OsFailure msg), [FsReaddir fullPath])
           | Inr names \<Rightarrow> (Inr names, [FsReaddir fullPath])))"

definition nfs_mkdir ::
  "os \<Rightarrow> string \<Rightarrow> string \<Rightarrow> bool \<Rightarrow> (fs_error + unit) \<times> os_call list" where
  "nfs_mkdir w basePath dirPath recursive =
     (case resolvePath w basePath dirPath of
        Inl e \<Rightarrow> (Inl e, [])
      | Inr fullPath \<Rightarrow>
          (case os_mkdir w fullPath recursive of
             Some msg \<Rightarrow> (Inl (OsFailure msg), [FsMkdir fullPath recursive])
           | None \<Rightarrow> (Inr (), [FsMkdir fullPath recursive])))"

text \<open>\<^verbatim>\<open>exists\<close> catches every failure, the one of \<^verbatim>\<open>resolvePath\<close> too, and answers false.\<close>

definition nfs_exists :: "os \<Rightarrow> string \<Rightarrow> string \<Rightarrow> bool \<times> os_call list" where
  "nfs_exists w basePath filePath =
     (case resolvePath w basePath filePath of
        Inl e \<Rightarrow> (False, [])
      | Inr fullPath \<Rightarrow>
          (case os_access w fullPath of
             Some msg \<Rightarrow> (False, [FsAccess fullPath])
           | None \<Rightarrow> (True, [FsAccess fullPath])))"

definition nfs_remove :: "os \<Rightarrow> string \<Rightarrow> string \<Rightarrow> (fs_error + unit) \<times> os_call list" where
  "nfs_remove w basePath filePath =
     (case resolvePath w basePath filePath of
        Inl e \<Rightarrow> (Inl e, [])
      | Inr fullPath \<Rightarrow>
          (case os_stat w fullPath of
             Inl msg \<Rightarrow> (Inl (OsFailure msg), [FsStat fullPath])
           | Inr stats \<Rightarrow>
               if st_isDirectory stats then
                 (case os_rmdir w fullPath of
                    Some msg \<Rightarrow> (Inl (OsFailure msg), [FsStat fullPath, FsRmdir fullPath])
                  | None \<Rightarrow> (Inr (), [FsStat fullPath, FsRmdir fullPath]))
               else
                 (case os_unlink w fullPath of
                    Some msg \<Rightarrow> (Inl (OsFailure msg), [FsStat fullPath, FsUnlink fullPath])
                  | None \<Rightarrow> (Inr (), [FsStat fullPath, FsUnlink fullPath]))))"

definition nfs_stat :: "os \<Rightarrow> string \<Rightarrow> string \<Rightarrow> (fs_error + FileStats) \<times> os_call list" where
  "nfs_stat w basePath filePath =
     (case resolvePath w basePath filePath of
        Inl e \<Rightarrow> (Inl e, [])
      | Inr fullPath \<Rightarrow>
          (case os_stat w fullPath of
             Inl msg \<Rightarrow> (Inl (OsFailure msg), [FsStat fullPath])
           | Inr stats \<Rightarrow> (Inr stats, [FsStat fullPath])))"

text \<open>The path of an operating-system call, and what the claim of path safety asks of it.\<close>

fun call_path :: "os_call \<Rightarrow> string" where
  "call_path (FsReadFile p) = p"
| "call_path (FsMkdir p r) = p"
| "call_path (FsWriteFile p c) = p"
| "call_path (FsReaddir p) = p"
| "call_path (FsAccess p) = p"
| "call_path (FsStat p) = p"
| "call_path (FsRmdir p) = p"
| "call_path (FsUnlink p) = p"

text \<open>
  A descendant of the root directory: the root itself, or a path that continues the root
  with a slash (every path continues the root \<^verbatim>\<open>/\<close>).
\<close>

definition descendant :: "string \<Rightarrow> string \<Rightarrow> bool" where
  "descendant rootDir p =
     (p = rootDir \<or> prefix (if rootDir = ''/'' then rootDir else rootDir @ ''/'') p)"

section \<open>OptimizedFileSystem\<close>

text \<open>
  The two caches are keyed by the path as the caller wrote it. \<open>recorded\<close> is the list of
  operation types handed to the performance monitor (the durations are not modelled).
\<close>

record OptimizedFileSystem =
  ofs_basePath :: string
  ofs_cache :: "string CacheManager"
  statsCache :: "FileStats CacheManager"
  recorded :: "string list"

definition OptimizedFileSystem_new :: "os \<Rightarrow> string \<Rightarrow> OptimizedFileSystem" where
  "OptimizedFileSystem_new w basePath =
     \<lparr>ofs_basePath = NodeFileSystem_new w basePath,
      ofs_cache = CacheManager_new 500 60000,
      statsCache = CacheManager_new 1000 30000,
      recorded = []\<rparr>"

text \<open>
  \<open>now\<close> is the time at which the cache is asked; on a miss the base file system is read
  and the content is stored at time \<open>now_set\<close>, the eviction loop reading \<open>clock\<close>.
\<close>

definition ofs_readFile ::
  "os \<Rightarrow> int \<Rightarrow> (nat \<Rightarrow> int) \<Rightarrow> int \<Rightarrow> string \<Rightarrow> OptimizedFileSystem
     \<Rightarrow> ((fs_error + string) \<times> os_call list) \<times> OptimizedFileSystem" where
  "ofs_readFile w now clock now_set filePath s =
     (case cm_get now filePath (ofs_cache s) of
        (Some cached, c1) \<Rightarrow>
          ((Inr cached, []), s\<lparr>ofs_cache := c1, recorded := recorded s @ [''read_cached'']\<rparr>)
      | (None, c1) \<Rightarrow>
          (case nfs_readFile w (ofs_basePath s) filePath of
             (Inl e, calls) \<Rightarrow>
               ((Inl e, calls), s\<lparr>ofs_cache := c1, recorded := recorded s @ [''read_error'']\<rparr>)
           | (Inr content, calls) \<Rightarrow>
               ((Inr content, calls),
                s\<lparr>ofs_cache := cm_set clock now_set filePath content None c1,
                  recorded := recorded s @ [''read'']\<rparr>)))"

definition ofs_writeFile ::
  "os \<Rightarrow> (nat \<Rightarrow> int) \<Rightarrow> int \<Rightarrow> string \<Rightarrow> string \<Rightarrow> OptimizedFileSystem
     \<Rightarrow> ((fs_error + unit) \<times> os_call list) \<times> OptimizedFileSystem" where
  "ofs_writeFile w clock now filePath content s =
     (case nfs_writeFile w (ofs_basePath s) filePath content of
        (Inl e, calls) \<Rightarrow> ((Inl e, calls), s\<lparr>recorded := recorded s @ [''write_error'']\<rparr>)
      | (Inr u, calls) \<Rightarrow>
          ((Inr u, calls),
           s\<lparr>ofs_cache := cm_set clock now filePath content None (ofs_cache s),
             statsCache := snd (cm_delete filePath (statsCache s)),
             recorded := recorded s @ [''write'']\<rparr>))"

definition ofs_stat ::
  "os \<Rightarrow> int \<Rightarrow> (nat \<Rightarrow> int) \<Rightarrow> int \<Rightarrow> string \<Rightarrow> OptimizedFileSystem
     \<Rightarrow> ((fs_error + FileStats) \<times> os_call list) \<times> OptimizedFileSystem" where
  "ofs_stat w now clock now_set filePath s =
     (case cm_get now filePath (statsCache s) of
        (Some cached, c1) \<Rightarrow>
          ((Inr cached, []), s\<lparr>statsCache := c1, recorded := recorded s @ [''stat_cached'']\<rparr>)
      | (None, c1) \<Rightarrow>
          (case nfs_stat w (ofs_basePath s) filePath of
             (Inl e, calls) \<Rightarrow>
               ((Inl e, calls), s\<lparr>statsCache := c1, recorded := recorded s @ [''stat_error'']\<rparr>)
           | (Inr stats, calls) \<Rightarrow>
               ((Inr stats, calls),
                s\<lparr>statsCache := cm_set clock now_set filePath stats None c1,
                  recorded := recorded s @ [''stat'']\<rparr>)))"

definition ofs_remove ::
  "os \<Rightarrow> string \<Rightarrow> OptimizedFileSystem
     \<Rightarrow> ((fs_error + unit) \<times> os_call list) \<times> OptimizedFileSystem" where
  "ofs_remove w filePath s =
     (case nfs_remove w (ofs_basePath s) filePath of
        (Inl e, calls) \<Rightarrow> ((Inl e, calls), s\<lparr>recorded := recorded s @ [''remove_error'']\<rparr>)
      | (Inr u, calls) \<Rightarrow>
          ((Inr u, calls),
           s\<lparr>ofs_cache := snd (cm_delete filePath (ofs_cache s)),
             statsCache := snd (cm_delete filePath (statsCache s)),
             recorded := recorded s @ [''remove'']\<rparr>))"

section \<open>TerminalManager\<close>

text \<open>
  A process is known by its pid, which is \<open>None\<close> where the source has \<^verbatim>\<open>undefined\<close>; its
  output streams are not modelled. \<open>signals\<close> lists the signals sent to child processes
  (\<^verbatim>\<open>kill()\<close> sends \<^verbatim>\<open>SIGTERM\<close>), \<open>console\<close> the lines written to the console.
\<close>

datatype term_error = SessionNotFound string | SpawnFailed string

record Process =
  pid :: "int option"

record TerminalSession =
  session_id :: string
  terminal_wd :: string
  processes :: "(int option \<times> Process) list"
  history :: "string list"
  session_cwd :: string

record TerminalManager =
  sessions :: "(string \<times> TerminalSession) list"
  workingDirectory :: string
  signals :: "(int option \<times> string) list"
  console :: "string list"

definition TerminalManager_new :: "string \<Rightarrow> TerminalManager" where
  "TerminalManager_new wd = \<lparr>sessions = [], workingDirectory = wd, signals = [], console = []\<rparr>"

text \<open>\<open>generated\<close> is the identifier \<^verbatim>\<open>generateSessionId()\<close> would return.\<close>

definition createSession ::
  "string option \<Rightarrow> string \<Rightarrow> TerminalManager \<Rightarrow> TerminalSession \<times> TerminalManager" where
  "createSession sessionId generated tm =
     (let ident = (case sessionId of
                     None \<Rightarrow> generated
                   | Some given \<Rightarrow> if given = [] then generated else given);
          session = \<lparr>session_id = ident, terminal_wd = workingDirectory tm, processes = [],
                     history = [], session_cwd = workingDirectory tm\<rparr>
      in (session, tm\<lparr>sessions := AList.update ident session (sessions tm)\<rparr>))"

definition getSession :: "string \<Rightarrow> TerminalManager \<Rightarrow> TerminalSession option" where
  "getSession sessionId tm = map_of (sessions tm) sessionId"

fun join_space :: "string list \<Rightarrow> string" where
  "join_space [] = []"
| "join_space [s] = s"
| "join_space (s # t # ss) = s @ '' '' @ join_space (t # ss)"

definition handleCdCommand ::
  "os \<Rightarrow> string \<Rightarrow> TerminalSession \<Rightarrow> string list \<Rightarrow> TerminalSession \<times> string list" where
  "handleCdCommand w managerDir session args =
     (let fallback = (case env_HOME w of
                        None \<Rightarrow> managerDir
                      | Some h \<Rightarrow> if h = [] then managerDir else h);
          given = (case args of [] \<Rightarrow> fallback | a # _ \<Rightarrow> if a = [] then fallback else a);
          targetDir = (if \<not> isAbsolute given
                       then path_resolve (os_cwd w) [session_cwd session, given] else given)
      in case os_access w targetDir of
           Some msg \<Rightarrow> (session, [''cd: '' @ targetDir @ '': No such file or directory''])
         | None \<Rightarrow>
             (case os_stat w targetDir of
                Inl msg \<Rightarrow> (session, [''cd: '' @ targetDir @ '': No such file or directory''])
              | Inr stats \<Rightarrow>
                  if st_isDirectory stats
                  then (session\<lparr>session_cwd := targetDir\<rparr>,
                        [''Changed directory to: '' @ targetDir])
                  else (session, [''cd: '' @ targetDir @ '': Not a directory''])))"

definition createMockProcess :: Process where
  "createMockProcess = \<lparr>pid = Some (- 1)\<rparr>"

text \<open>
  \<^verbatim>\<open>NodeTerminal.spawn\<close> with the option \<^verbatim>\<open>cwd\<close>: \<^verbatim>\<open>options.cwd || this.workingDirectory\<close>
  takes the terminal's directory for an empty \<^verbatim>\<open>cwd\<close>. The process it returns has the pid
  of the child, whether there is one or not.
\<close>

definition NodeTerminal_spawn ::
  "os \<Rightarrow> string \<Rightarrow> string \<Rightarrow> string list \<Rightarrow> string \<Rightarrow> string + Process" where
  "NodeTerminal_spawn w terminalDir command args cwd =
     (case os_spawn w command args (if cwd = [] then terminalDir else cwd) of
        Inl msg \<Rightarrow> Inl msg
      | Inr p \<Rightarrow> Inr \<lparr>pid = p\<rparr>)"

definition executeCommand ::
  "os \<Rightarrow> string \<Rightarrow> string \<Rightarrow> string list \<Rightarrow> TerminalManager
     \<Rightarrow> (term_error + Process) \<times> TerminalManager" where
  "executeCommand w sessionId command args tm =
     (case getSession sessionId tm of
        None \<Rightarrow> (Inl (SessionNotFound sessionId), tm)
      | Some session0 \<Rightarrow>
          (let session = session0\<lparr>history := history session0 @ [command @ '' '' @ join_space args]\<rparr>
           in if command = ''cd'' then
                (case handleCdCommand w (workingDirectory tm) session args of
                   (session', lines) \<Rightarrow>
                     (Inr createMockProcess,
                      tm\<lparr>sessions := AList.update sessionId session' (sessions tm),
                         console := console tm @ lines\<rparr>))
              else if command = ''pwd'' then
                (Inr createMockProcess,
                 tm\<lparr>sessions := AList.update sessionId session (sessions tm),
                    console := console tm @ [session_cwd session]\<rparr>)
              else if command = ''clear'' then
                (Inr createMockProcess,
                 tm\<lparr>sessions := AList.update sessionId session (sessions tm)\<rparr>)
              else
                (case NodeTerminal_spawn w (terminal_wd session) command args
                        (session_cwd session) of
                   Inl msg \<Rightarrow>
                     (Inl (SpawnFailed msg),
                      tm\<lparr>sessions := AList.update sessionId session (sessions tm)\<rparr>)
                 | Inr process \<Rightarrow>
                     (Inr process,
                      tm\<lparr>sessions :=
                           AList.update sessionId
                             (session\<lparr>processes :=
                                        AList.update (pid process) process (processes session)\<rparr>)
                             (sessions tm)\<rparr>))))"

text \<open>The callback given to \<^verbatim>\<open>onExit\<close>: the pid of the process leaves the live-process
  map of its session.\<close>

definition onProcessExit :: "string \<Rightarrow> int option \<Rightarrow> TerminalManager \<Rightarrow> TerminalManager" where
  "onProcessExit sessionId p tm =
     (case getSession sessionId tm of
        None \<Rightarrow> tm
      | Some session \<Rightarrow>
          tm\<lparr>sessions :=
               AList.update sessionId
                 (session\<lparr>processes := AList.delete p (processes session)\<rparr>) (sessions tm)\<rparr>)"

text \<open>\<^verbatim>\<open>killProcess(sessionId, pid)\<close> takes a number for the pid.\<close>

definition killProcess :: "string \<Rightarrow> int \<Rightarrow> TerminalManager \<Rightarrow> bool \<times> TerminalManager" where
  "killProcess sessionId p tm =
     (case getSession sessionId tm of
        None \<Rightarrow> (False, tm)
      | Some session \<Rightarrow>
          (case map_of (processes session) (Some p) of
             None \<Rightarrow> (False, tm)
           | Some process \<Rightarrow>
               (True,
                tm\<lparr>sessions :=
                     AList.update sessionId
                       (session\<lparr>processes := AList.delete (Some p) (processes session)\<rparr>)
                       (sessions tm),
                   signals := signals tm @ [(pid process, ''SIGTERM'')]\<rparr>)))"

definition getSessionHistory :: "string \<Rightarrow> TerminalManager \<Rightarrow> string list" where
  "getSessionHistory sessionId tm =
     (case getSession sessionId tm of None \<Rightarrow> [] | Some session \<Rightarrow> history session)"

definition destroySession :: "string \<Rightarrow> TerminalManager \<Rightarrow> bool \<times> TerminalManager" where
  "destroySession sessionId tm =
     (case getSession sessionId tm of
        None \<Rightarrow> (False, tm)
      | Some session \<Rightarrow>
          (True,
           tm\<lparr>sessions := AList.delete sessionId (sessions tm),
              signals := signals tm @ map (\<lambda>(k, process). (pid process, ''SIGTERM''))
                                          (processes session)\<rparr>))"

section \<open>PreviewManager\<close>

datatype preview_status = Starting | Running | Stopped | Failed

record PreviewInstance =
  preview_id :: string
  port :: int
  url :: string
  status :: preview_status
  projectPath :: string
  lastActivity :: int

record PreviewConfig =
  cfg_port :: "int option"
  cfg_host :: "string option"
  cfg_https :: "bool option"
  cfg_proxy :: "(string \<times> string) list option"
  cfg_env :: "(string \<times> string) list option"

datatype preview_error = NoAvailablePorts | StartFailed string

datatype preview_event =
    PreviewStarted string | PreviewError string string | PreviewStopped string
  | PreviewRestarted string | FileChanged string string

datatype server_call = ServerStart | ServerStop

text \<open>
  The status \<^verbatim>\<open>"error"\<close> of the source is \<open>Failed\<close>. The supervisor of an instance
  (\<^verbatim>\<open>LocalDevServer\<close>) is outside the model: \<open>server_calls\<close> lists the calls of its
  \<^verbatim>\<open>start\<close> and \<^verbatim>\<open>stop\<close>, by instance, and each operation is given what the call answers
  (\<open>None\<close> for success, \<open>Some\<close> with the message of the failure). \<open>watched\<close> lists the
  instances a change handler was attached for.
\<close>

record PreviewManager =
  previews :: "(string \<times> PreviewInstance) list"
  portRange_min :: int
  portRange_max :: int
  usedPorts :: "int set"
  preview_emitted :: "preview_event list"
  server_calls :: "(string \<times> server_call) list"
  process_env :: "(string \<times> string) list"
  watched :: "string list"

definition PreviewManager_new :: PreviewManager where
  "PreviewManager_new =
     \<lparr>previews = [], portRange_min = 3000, portRange_max = 9000, usedPorts = {},
      preview_emitted = [], server_calls = [], process_env = [], watched = []\<rparr>"

text \<open>
  The loop of \<^verbatim>\<open>findAvailablePort\<close>, from the candidate \<open>candidate\<close> on; \<open>bindable\<close> answers
  the bind test of \<^verbatim>\<open>isPortAvailable\<close>.
\<close>

function findAvailablePort_from ::
  "int set \<Rightarrow> (int \<Rightarrow> bool) \<Rightarrow> int \<Rightarrow> int \<Rightarrow> preview_error + int" where
  "findAvailablePort_from used bindable candidate hi =
     (if candidate \<le> hi then
        (if candidate \<notin> used \<and> bindable candidate then Inr candidate
         else findAvailablePort_from used bindable (candidate + 1) hi)
      else Inl NoAvailablePorts)"
  by pat_completeness auto
termination
  by (relation "measure (\<lambda>(used, bindable, candidate, hi). nat (hi + 1 - candidate))") auto

declare findAvailablePort_from.simps [simp del]

definition findAvailablePort :: "(int \<Rightarrow> bool) \<Rightarrow> PreviewManager \<Rightarrow> preview_error + int" where
  "findAvailablePort bindable m =
     findAvailablePort_from (usedPorts m) bindable (portRange_min m) (portRange_max m)"

text \<open>The decimal writing of a whole number, as a template string of the source prints
  it (numbers below ten to the power 21 in absolute value, which are printed in full).\<close>

fun nat_digits :: "nat \<Rightarrow> string" where
  "nat_digits n =
     (if n < 10 then [''0123456789'' ! n]
      else nat_digits (n div 10) @ [''0123456789'' ! (n mod 10)])"

declare nat_digits.simps [simp del]

definition int_digits :: "int \<Rightarrow> string" where
  "int_digits i = (if i < 0 then ''-'' @ nat_digits (nat (- i)) else nat_digits (nat i))"

text \<open>
  \<^verbatim>\<open>config.port || (await this.findAvailablePort())\<close>: a port is looked for when none is
  given and when 0 is given; a given port is taken as it is.
\<close>

definition choosePort ::
  "(int \<Rightarrow> bool) \<Rightarrow> PreviewConfig \<Rightarrow> PreviewManager \<Rightarrow> preview_error + int" where
  "choosePort bindable config m =
     (case cfg_port config of
        None \<Rightarrow> findAvailablePort bindable m
      | Some given \<Rightarrow> if given = 0 then findAvailablePort bindable m else Inr given)"

text \<open>
  \<^verbatim>\<open>createPreview\<close> after its port is chosen, up to its return: the instance is registered
  as \<^verbatim>\<open>starting\<close> and the port marked used, the supervisor is started, and the status
  becomes \<^verbatim>\<open>running\<close> or \<^verbatim>\<open>error\<close>. \<open>generated\<close> is the identifier of
  \<^verbatim>\<open>generatePreviewId()\<close>, \<open>now\<close> the time, \<open>start_result\<close> the answer of the supervisor's
  start, \<open>readdir_ok\<close> whether the listing of the project path that precedes the change
  handler succeeds.
\<close>

definition registerPreview ::
  "string \<Rightarrow> int \<Rightarrow> string option \<Rightarrow> bool \<Rightarrow> string \<Rightarrow> PreviewConfig \<Rightarrow> int
     \<Rightarrow> PreviewManager \<Rightarrow> (preview_error + PreviewInstance) \<times> PreviewManager" where
  "registerPreview generated now start_result readdir_ok path config chosen m =
     (let preview =
            \<lparr>preview_id = generated, port = chosen,
             url = ''http://''
                   @ (case cfg_host config of
                        None \<Rightarrow> ''localhost''
                      | Some h \<Rightarrow> if h = [] then ''localhost'' else h)
                   @ '':'' @ int_digits chosen,
             status = Starting, projectPath = path, lastActivity = now\<rparr>;
          m1 = m\<lparr>previews := AList.update generated preview (previews m),
                 usedPorts := insert chosen (usedPorts m),
                 process_env := (case cfg_env config of
                                   None \<Rightarrow> process_env m
                                 | Some env \<Rightarrow> AList.updates (map fst env) (map snd env)
                                                 (process_env m)),
                 server_calls := server_calls m @ [(generated, ServerStart)]\<rparr>
      in case start_result of
           None \<Rightarrow>
             (Inr (preview\<lparr>status := Running\<rparr>),
              m1\<lparr>previews := AList.update generated (preview\<lparr>status := Running\<rparr>)
                                (previews m1),
                 preview_emitted := preview_emitted m1 @ [PreviewStarted generated],
                 watched := (if readdir_ok then watched m1 @ [generated] else watched m1)\<rparr>)
         | Some msg \<Rightarrow>
             (Inl (StartFailed msg),
              m1\<lparr>previews := AList.update generated (preview\<lparr>status := Failed\<rparr>)
                                (previews m1),
                 preview_emitted := preview_emitted m1 @ [PreviewError generated msg]\<rparr>))"

text \<open>
  \<^verbatim>\<open>createPreview\<close>: the port is chosen (the call waits for \<^verbatim>\<open>findAvailablePort\<close>), then the
  rest runs with the orchestrator as it is at that moment. A call that runs alone sees
  the same orchestrator at both moments.
\<close>

definition createPreview ::
  "string \<Rightarrow> int \<Rightarrow> (int \<Rightarrow> bool) \<Rightarrow> string option \<Rightarrow> bool \<Rightarrow> string \<Rightarrow> PreviewConfig
     \<Rightarrow> PreviewManager \<Rightarrow> (preview_error + PreviewInstance) \<times> PreviewManager" where
  "createPreview generated now bindable start_result readdir_ok path config m =
     (case choosePort bindable config m of
        Inl e \<Rightarrow> (Inl e, m)
      | Inr chosen \<Rightarrow> registerPreview generated now start_result readdir_ok path config chosen m)"

text \<open>
  Two calls of \<^verbatim>\<open>createPreview\<close> that overlap. A call is suspended while it waits for its
  port, and the other call runs in the meantime; nothing in the class makes a call wait
  for another. In this schedule the call \<open>b\<close> starts while \<open>a\<close> waits for its port, so that
  both have chosen their port on the orchestrator \<open>m\<close> before either registers it.
\<close>

record CreateCall =
  call_generated :: string
  call_now :: int
  call_bindable :: "int \<Rightarrow> bool"
  call_start_result :: "string option"
  call_readdir_ok :: bool
  call_projectPath :: string
  call_config :: PreviewConfig

definition createPreview_call ::
  "CreateCall \<Rightarrow> PreviewManager \<Rightarrow> (preview_error + PreviewInstance) \<times> PreviewManager" where
  "createPreview_call c m =
     createPreview (call_generated c) (call_now c) (call_bindable c) (call_start_result c)
       (call_readdir_ok c) (call_projectPath c) (call_config c) m"

definition register_call ::
  "CreateCall \<Rightarrow> preview_error + int \<Rightarrow> PreviewManager
     \<Rightarrow> (preview_error + PreviewInstance) \<times> PreviewManager" where
  "register_call c choice m =
     (case choice of
        Inl e \<Rightarrow> (Inl e, m)
      | Inr chosen \<Rightarrow>
          registerPreview (call_generated c) (call_now c) (call_start_result c)
            (call_readdir_ok c) (call_projectPath c) (call_config c) chosen m)"

definition overlapping_creates ::
  "CreateCall \<Rightarrow> CreateCall \<Rightarrow> PreviewManager
     \<Rightarrow> ((preview_error + PreviewInstance) \<times> (preview_error + PreviewInstance)) \<times> PreviewManager" where
  "overlapping_creates a b m =
     (let choice_a = choosePort (call_bindable a) (call_config a) m;
          choice_b = choosePort (call_bindable b) (call_config b) m;
          done_a = register_call a choice_a m;
          done_b = register_call b choice_b (snd done_a)
      in ((fst done_a, fst done_b), snd done_b))"

definition stopPreview :: "string option \<Rightarrow> string \<Rightarrow> PreviewManager \<Rightarrow> bool \<times> PreviewManager" where
  "stopPreview stop_result previewId m =
     (case map_of (previews m) previewId of
        None \<Rightarrow> (False, m)
      | Some preview \<Rightarrow>
          (case stop_result of
             None \<Rightarrow>
               (True,
                m\<lparr>usedPorts := usedPorts m - {port preview},
                  previews := AList.delete previewId (previews m),
                  preview_emitted := preview_emitted m @ [PreviewStopped previewId],
                  server_calls := server_calls m @ [(previewId, ServerStop)]\<rparr>)
           | Some msg \<Rightarrow>
               (False,
                m\<lparr>preview_emitted := preview_emitted m @ [PreviewError previewId msg],
                  server_calls := server_calls m @ [(previewId, ServerStop)]\<rparr>)))"

definition restartPreview ::
  "int \<Rightarrow> string option \<Rightarrow> string option \<Rightarrow> string \<Rightarrow> PreviewManager
     \<Rightarrow> bool \<times> PreviewManager" where
  "restartPreview now stop_result start_result previewId m =
     (case map_of (previews m) previewId of
        None \<Rightarrow> (False, m)
      | Some preview \<Rightarrow>
          (case stop_result of
             Some msg \<Rightarrow>
               (False,
                m\<lparr>previews := AList.update previewId (preview\<lparr>status := Failed\<rparr>) (previews m),
                  preview_emitted := preview_emitted m @ [PreviewError previewId msg],
                  server_calls := server_calls m @ [(previewId, ServerStop)]\<rparr>)
           | None \<Rightarrow>
               (case start_result of
                  Some msg \<Rightarrow>
                    (False,
                     m\<lparr>previews := AList.update previewId (preview\<lparr>status := Failed\<rparr>)
                                      (previews m),
                       preview_emitted := preview_emitted m @ [PreviewError previewId msg],
                       server_calls := server_calls m
                                       @ [(previewId, ServerStop), (previewId, ServerStart)]\<rparr>)
                | None \<Rightarrow>
                    (True,
                     m\<lparr>previews := AList.update previewId
                                      (preview\<lparr>status := Running, lastActivity := now\<rparr>)
                                      (previews m),
                       preview_emitted := preview_emitted m @ [PreviewRestarted previewId],
                       server_calls := server_calls m
                                       @ [(previewId, ServerStop), (previewId, ServerStart)]\<rparr>))))"

definition getRunningPreviews :: "PreviewManager \<Rightarrow> PreviewInstance list" where
  "getRunningPreviews m = filter (\<lambda>p. status p = Running) (map snd (previews m))"

definition shouldAutoRestart :: "string \<Rightarrow> bool" where
  "shouldAutoRestart filePath = (extname filePath \<in> set [''.js'', ''.ts'', ''.json'', ''.env''])"

text \<open>
  The handler of the watcher's \<^verbatim>\<open>change\<close> event for the instance \<open>previewId\<close>, at time
  \<open>now\<close>; a restart it triggers reads the time \<open>now_restart\<close> and is answered
  \<open>stop_result\<close> and \<open>start_result\<close> by the supervisor. The handler holds the instance
  itself: once the instance has left the registry its update is not seen there.
\<close>

definition onFileChange ::
  "int \<Rightarrow> int \<Rightarrow> string option \<Rightarrow> string option \<Rightarrow> string \<Rightarrow> string \<Rightarrow> PreviewManager
     \<Rightarrow> PreviewManager" where
  "onFileChange now now_restart stop_result start_result previewId filePath m =
     (let m1 = m\<lparr>previews := (case map_of (previews m) previewId of
                                 None \<Rightarrow> previews m
                               | Some preview \<Rightarrow>
                                   AList.update previewId (preview\<lparr>lastActivity := now\<rparr>)
                                     (previews m)),
                  preview_emitted := preview_emitted m @ [FileChanged previewId filePath]\<rparr>
      in if shouldAutoRestart filePath
         then snd (restartPreview now_restart stop_result start_result previewId m1)
         else m1)"

section \<open>Concrete states for the examples\<close>

text \<open>A cache of two entries: \<open>a\<close>, written at time 0 and hit five times, and \<open>b\<close>, written
  at time 1000 with a ttl of half a second and never hit.\<close>

definition demo_cache :: "string CacheManager" where
  "demo_cache =
     \<lparr>cache = [(''a'', \<lparr>entry_value = ''x'', timestamp = 0, ttl = 5000, hits = 5\<rparr>),
               (''b'', \<lparr>entry_value = ''y'', timestamp = 1000, ttl = 500, hits = 0\<rparr>)],
      maxSize = 2, defaultTTL = 300000, cache_emitted = []\<rparr>"



text \<open>An operating system that accepts every call, has no file to read, and reports
  every path as a directory.\<close>

definition demo_os :: os where
  "demo_os =
     \<lparr>os_cwd = ''/srv'', env_HOME = Some ''/home/dev'',
      os_readFile = (\<lambda>p. Inl ''ENOENT''),
      os_writeFile = (\<lambda>p c. None),
      os_mkdir = (\<lambda>p r. None),
      os_readdir = (\<lambda>p. Inr []),
      os_access = (\<lambda>p. None),
      os_stat = (\<lambda>p. Inr \<lparr>st_isFile = False, st_isDirectory = True, st_size = 0, st_mtime = 0\<rparr>),
      os_rmdir = (\<lambda>p. None),
      os_unlink = (\<lambda>p. None),
      os_spawn = (\<lambda>c a d. Inr (Some 4242))\<rparr>"

text \<open>A multiplexer with one session, \<open>s1\<close>, in which one command has been spawned.\<close>

definition demo_tm :: TerminalManager where
  "demo_tm =
     snd (executeCommand demo_os ''s1'' ''node'' [''server.js'']
            (snd (createSession (Some ''s1'') ''terminal_0'' (TerminalManager_new ''/work''))))"

text \<open>The empty configuration \<^verbatim>\<open>{}\<close>, and an orchestrator with one running preview
  created from it.\<close>

definition demo_config :: PreviewConfig where
  "demo_config = \<lparr>cfg_port = None, cfg_host = None, cfg_https = None, cfg_proxy = None, cfg_env = None\<rparr>"

definition demo_pm :: PreviewManager where
  "demo_pm = snd (createPreview ''preview_1'' 0 (\<lambda>_. True) None True ''proj'' demo_config
                    PreviewManager_new)"

text \<open>Two calls \<^verbatim>\<open>createPreview("proj", {})\<close>, for which every bind test and the start of
  the supervisor succeed.\<close>

definition demo_call_a :: CreateCall where
  "demo_call_a =
     \<lparr>call_generated = ''preview_a'', call_now = 0, call_bindable = (\<lambda>_. True),
      call_start_result = None, call_readdir_ok = True, call_projectPath = ''proj'',
      call_config = demo_config\<rparr>"

definition demo_call_b :: CreateCall where
  "demo_call_b =
     \<lparr>call_generated = ''preview_b'', call_now = 1, call_bindable = (\<lambda>_. True),
      call_start_result = None, call_readdir_ok = True, call_projectPath = ''proj'',
      call_config = demo_config\<rparr>"

section \<open>Properties\<close>

subsection \<open>CacheManager: the association list and the eviction loop\<close>

lemma evict_scan_key:
  "evict_scan clock i al oldest = Some (k, sc) \<Longrightarrow> oldest = Some (k, sc) \<or> k \<in> fst ` set al"
proof (induction al arbitrary: i oldest)
  case Nil
  then show ?case by simp
next
  case (Cons p al)
  obtain key entry where p: "p = (key, entry)" by (cases p)
  from Cons.prems have "evict_scan clock (Suc i) al
       (case oldest of
          None \<Rightarrow> Some (key, score (clock i) entry)
        | Some (oldestKey, oldestScore) \<Rightarrow>
            if score (clock i) entry < oldestScore then Some (key, score (clock i) entry)
            else oldest) = Some (k, sc)" by (simp add: p)
  from Cons.IH[OF this] show ?case unfolding p
    by (cases oldest) (auto split: if_splits)
qed

lemma length_delete_present:
  "distinct (map fst al) \<Longrightarrow> k \<in> fst ` set al \<Longrightarrow> Suc (length (AList.delete k al)) = length al"
proof (induction al)
  case Nil
  then show ?case by simp
next
  case (Cons p al)
  obtain k' e where p: "p = (k', e)" by (cases p)
  show ?case
  proof (cases "k' = k")
    case True
    with Cons.prems p have "k \<notin> fst ` set al" by (auto simp: image_iff)
    then have "AList.delete k al = al" by simp
    with True p show ?thesis by (simp add: AList.delete_eq)
  next
    case False
    with Cons p show ?thesis by (simp add: AList.delete_eq)
  qed
qed

lemma fold_delete_filter:
  "fold AList.delete ks al = filter (\<lambda>(k, e). k \<notin> set ks) al"
proof (induction ks arbitrary: al)
  case Nil
  show ?case by simp
next
  case (Cons k ks)
  have "fold AList.delete (k # ks) al = filter (\<lambda>(k', e). k' \<notin> set ks) (AList.delete k al)"
    by (simp add: Cons.IH)
  also have "\<dots> = filter (\<lambda>(k', e). k' \<notin> set ks \<and> k' \<noteq> k) al"
    unfolding AList.delete_eq filter_filter by (rule filter_cong) auto
  also have "\<dots> = filter (\<lambda>(k', e). k' \<notin> set (k # ks)) al"
    by (rule filter_cong) auto
  finally show ?case .
qed

lemma cache_fold_expire:
  "cache (fold (\<lambda>key c'. c'\<lparr>cache := AList.delete key (cache c'),
                            cache_emitted := cache_emitted c' @ [EvExpired key]\<rparr>) ks c)
   = fold AList.delete ks (cache c)"
  by (induction ks arbitrary: c) simp_all

lemma cache_cleanup:
  "cache (cleanup now c) = filter (\<lambda>(k, e). k \<notin> set (expiredKeys now (cache c))) (cache c)"
  by (simp add: cleanup_def Let_def cache_fold_expire fold_delete_filter)

lemma in_expiredKeys:
  "k \<in> set (expiredKeys now al) \<longleftrightarrow> (\<exists>e. (k, e) \<in> set al \<and> now - timestamp e > ttl e)"
  by (auto simp: expiredKeys_def image_iff)

lemma keys_cleanup:
  "fst ` set (cache (cleanup now c)) = fst ` set (cache c) - set (expiredKeys now (cache c))"
  by (auto simp: cache_cleanup image_iff)


lemma cm_get_expired:
  "map_of (cache c) key = Some entry \<Longrightarrow> now - timestamp entry > ttl entry \<Longrightarrow>
   cm_get now key c = (None, c\<lparr>cache := AList.delete key (cache c),
                      cache_emitted := cache_emitted c @ [EvExpired key]\<rparr>)"
  by (simp add: cm_get_def)

lemma cm_get_live:
  "map_of (cache c) key = Some entry \<Longrightarrow> \<not> now - timestamp entry > ttl entry \<Longrightarrow>
   cm_get now key c = (Some (entry_value entry),
             c\<lparr>cache := AList.update key (entry\<lparr>hits := hits entry + 1\<rparr>) (cache c),
               cache_emitted := cache_emitted c @ [EvHit key]\<rparr>)"
  by (simp add: cm_get_def)

lemma cm_has_expired:
  "map_of (cache c) key = Some entry \<Longrightarrow> now - timestamp entry > ttl entry \<Longrightarrow>
   cm_has now key c = (False, c\<lparr>cache := AList.delete key (cache c)\<rparr>)"
  by (simp add: cm_has_def)

lemma cm_has_live:
  "map_of (cache c) key = Some entry \<Longrightarrow> \<not> now - timestamp entry > ttl entry \<Longrightarrow>
   cm_has now key c = (True, c)"
  by (simp add: cm_has_def)

lemma evict_scan_None:
  "evict_scan clock i al oldest = None \<longleftrightarrow> al = [] \<and> oldest = None"
proof (induction al arbitrary: i oldest)
  case Nil
  show ?case by simp
next
  case (Cons p al)
  obtain key entry where p: "p = (key, entry)" by (cases p)
  show ?case unfolding p by (cases oldest) (simp_all add: Cons.IH split: prod.splits)
qed


text \<open>
  Claim C6. For an entry stored under \<open>key\<close>, the lazy check of \<^verbatim>\<open>get\<close> and \<^verbatim>\<open>has\<close> and the
  sweep \<^verbatim>\<open>cleanup\<close>, at the same time \<open>now\<close>, agree: once \<open>now - timestamp > ttl\<close> the
  entry is absent for all three (\<^verbatim>\<open>get\<close> answers nothing, \<^verbatim>\<open>has\<close> answers false, each of
  the three leaves no entry under the key), and otherwise it is present for all three.
\<close>

theorem expiry_paths_agree:
  assumes d: "distinct (map fst (cache c))"
    and l: "map_of (cache c) key = Some entry"
  shows "(now - timestamp entry > ttl entry \<longrightarrow>
            fst (cm_get now key c) = None \<and> \<not> fst (cm_has now key c)
            \<and> key \<notin> fst ` set (cache (snd (cm_get now key c)))
            \<and> key \<notin> fst ` set (cache (snd (cm_has now key c)))
            \<and> key \<notin> fst ` set (cache (cleanup now c)))
       \<and> (\<not> now - timestamp entry > ttl entry \<longrightarrow>
            fst (cm_get now key c) = Some (entry_value entry) \<and> fst (cm_has now key c)
            \<and> key \<in> fst ` set (cache (snd (cm_get now key c)))
            \<and> key \<in> fst ` set (cache (snd (cm_has now key c)))
            \<and> key \<in> fst ` set (cache (cleanup now c)))"
proof -
  from l have m: "(key, entry) \<in> set (cache c)" by (rule map_of_SomeD)
  have only: "e = entry" if "(key, e) \<in> set (cache c)" for e
    using that m d by (meson eq_key_imp_eq_value)
  have ex: "key \<in> set (expiredKeys now (cache c)) \<longleftrightarrow> now - timestamp entry > ttl entry"
    unfolding in_expiredKeys using m only by blast
  have k: "key \<in> fst ` set (cache c)" using m by (force simp: image_iff)
  have dead: "?thesis" if x: "now - timestamp entry > ttl entry"
  proof -
    have "key \<notin> fst ` set (cache (cleanup now c))"
      unfolding keys_cleanup using ex x by simp
    moreover have "key \<notin> fst ` set (AList.delete key (cache c))"
      by (rule AList.delete_notin_dom)
    ultimately show ?thesis
      using x by (simp add: cm_get_expired[OF l x] cm_has_expired[OF l x])
  qed
  have live: "?thesis" if x: "\<not> now - timestamp entry > ttl entry"
  proof -
    have "key \<in> fst ` set (cache (cleanup now c))"
      unfolding keys_cleanup using ex x k by simp
    moreover have "key \<in> fst ` set (AList.update key (entry\<lparr>hits := hits entry + 1\<rparr>) (cache c))"
      unfolding AList.dom_update by simp
    ultimately show ?thesis
      using x k by (simp add: cm_get_live[OF l x] cm_has_live[OF l x])
  qed
  from dead live show ?thesis by blast
qed

theorem expiry_paths_agree_witness:
  "distinct (map fst (cache demo_cache))
   \<and> map_of (cache demo_cache) ''b'' = Some \<lparr>entry_value = ''y'', timestamp = 1000, ttl = 500, hits = 0\<rparr>
   \<and> fst (cm_get 2000 ''b'' demo_cache) = None \<and> \<not> fst (cm_has 2000 ''b'' demo_cache)
   \<and> ''b'' \<notin> fst ` set (cache (cleanup 2000 demo_cache))
   \<and> fst (cm_get 1200 ''b'' demo_cache) = Some ''y'' \<and> fst (cm_has 1200 ''b'' demo_cache)
   \<and> ''b'' \<in> fst ` set (cache (cleanup 1200 demo_cache))"
proof -
  have d: "distinct (map fst (cache demo_cache))" by (simp add: demo_cache_def)
  have l: "map_of (cache demo_cache) ''b'' = Some \<lparr>entry_value = ''y'', timestamp = 1000, ttl = 500, hits = 0\<rparr>"
    by (simp add: demo_cache_def)
  from d l expiry_paths_agree[OF d l, of 2000] expiry_paths_agree[OF d l, of 1200]
  show ?thesis by simp
qed

subsection \<open>CacheManager: the capacity\<close>

lemma maxSize_evictOldest [simp]: "maxSize (evictOldest clock c) = maxSize c"
  by (simp add: evictOldest_def split: option.splits)

lemma maxSize_cm_set [simp]: "maxSize (cm_set clock now key v t c) = maxSize c"
  by (simp add: cm_set_def Let_def)

lemma distinct_evictOldest:
  "distinct (map fst (cache c)) \<Longrightarrow> distinct (map fst (cache (evictOldest clock c)))"
  by (auto simp: evictOldest_def AList.distinct_delete split: option.splits)

lemma distinct_cm_set:
  "distinct (map fst (cache c)) \<Longrightarrow> distinct (map fst (cache (cm_set clock now key v t c)))"
  by (simp add: cm_set_def Let_def AList.distinct_update distinct_evictOldest)

lemma length_evictOldest:
  assumes d: "distinct (map fst (cache c))" and ne: "cache c \<noteq> []"
    and k: "[] \<notin> fst ` set (cache c)"
  shows "Suc (length (cache (evictOldest clock c))) = length (cache c)"
proof -
  from ne have "evict_scan clock 0 (cache c) None \<noteq> None" by (simp add: evict_scan_None)
  then obtain k0 sc where s: "evict_scan clock 0 (cache c) None = Some (k0, sc)" by auto
  from evict_scan_key[OF s] have in_keys: "k0 \<in> fst ` set (cache c)" by simp
  with k have "k0 \<noteq> []" by metis
  with s have "cache (evictOldest clock c) = AList.delete k0 (cache c)"
    by (simp add: evictOldest_def)
  with length_delete_present[OF d in_keys] show ?thesis by simp
qed

lemma length_update_le: "length (AList.update k v al) \<le> Suc (length al)"
  by (induction al) auto

lemma cm_set_size_bound:
  assumes d: "distinct (map fst (cache c))"
    and k: "[] \<notin> fst ` set (cache c)"
    and pos: "1 \<le> maxSize c"
    and inv: "int (length (cache c)) \<le> maxSize c"
  shows "int (length (cache (cm_set clock now key v t c))) \<le> maxSize c"
proof (cases "int (length (cache c)) \<ge> maxSize c")
  case True
  with pos have ne: "cache c \<noteq> []" by auto
  obtain e where c': "cache (cm_set clock now key v t c)
                        = AList.update key e (cache (evictOldest clock c))"
    using True by (simp add: cm_set_def Let_def)
  have "length (cache (cm_set clock now key v t c)) \<le> Suc (length (cache (evictOldest clock c)))"
    unfolding c' by (rule length_update_le)
  also have "\<dots> = length (cache c)" by (rule length_evictOldest[OF d ne k])
  finally show ?thesis using inv by linarith
next
  case False
  obtain e where c': "cache (cm_set clock now key v t c) = AList.update key e (cache c)"
    using False by (simp add: cm_set_def Let_def)
  have "length (cache (cm_set clock now key v t c)) \<le> Suc (length (cache c))"
    unfolding c' by (rule length_update_le)
  with False show ?thesis by linarith
qed

subsection \<open>CacheManager: what the eviction removes\<close>

text \<open>The scores of the loop, entry by entry: the \<open>n\<close>-th entry is scored with the
  \<open>n\<close>-th reading of the clock.\<close>

lemma loop_scores_length: "length (loop_scores clock i al) = length al"
  by (induction al arbitrary: i) auto

lemma loop_scores_nth:
  "n < length al \<Longrightarrow>
     loop_scores clock i al ! n = (fst (al ! n), score (clock (i + n)) (snd (al ! n)))"
proof (induction al arbitrary: i n)
  case Nil
  then show ?case by simp
next
  case (Cons p al)
  obtain key entry where p: "p = (key, entry)" by (cases p)
  show ?case
  proof (cases n)
    case 0
    then show ?thesis by (simp add: p)
  next
    case (Suc n')
    with Cons.prems have "n' < length al" by simp
    from Cons.IH[OF this, of "Suc i"] Suc show ?thesis by (simp add: p)
  qed
qed







subsection \<open>CacheManager: the capacity exceeded\<close>

text \<open>
  Claim C10. The number of stored entries is meant never to exceed \<open>maxSize\<close>. It does in
  a cache of capacity 2 that holds \<open>a\<close> and, written later, an entry under the empty key,
  when a third key is set: the eviction loop selects the empty key (the lowest score), the
  test \<^verbatim>\<open>if (oldestKey)\<close> takes it for no key, nothing is evicted (no \<^verbatim>\<open>evicted\<close>
  notification), and three entries are stored.
\<close>

theorem cm_set_exceeds_maxSize:
  "map fst (cache (cm_set (\<lambda>_. 2000) 2000 ''b'' ''z'' None
              (cm_set (\<lambda>_. 1000) 1000 [] ''y'' None
                (cm_set (\<lambda>_. 0) 0 ''a'' ''x'' None (CacheManager_new 2 300000)))))
     = [''a'', [], ''b'']
   \<and> maxSize (cm_set (\<lambda>_. 2000) 2000 ''b'' ''z'' None
              (cm_set (\<lambda>_. 1000) 1000 [] ''y'' None
                (cm_set (\<lambda>_. 0) 0 ''a'' ''x'' None (CacheManager_new 2 300000)))) = 2
   \<and> cache_emitted (cm_set (\<lambda>_. 2000) 2000 ''b'' ''z'' None
              (cm_set (\<lambda>_. 1000) 1000 [] ''y'' None
                (cm_set (\<lambda>_. 0) 0 ''a'' ''x'' None (CacheManager_new 2 300000))))
     = [EvSet ''a'', EvSet [], EvSet ''b'']"
  by (simp add: cm_set_def CacheManager_new_def evictOldest_def score_def Let_def)

text \<open>
  The rest of the claim holds: without the empty key and with a capacity of at least 1,
  \<^verbatim>\<open>set\<close> keeps the number of entries within \<open>maxSize\<close> (\<open>cm_set_size_bound\<close>), and
  \<^verbatim>\<open>set\<close> on a key that is already present, at capacity, runs the eviction first: here
  setting \<open>a\<close> again evicts \<open>b\<close>, which has not expired.
\<close>

lemma cm_set_overwrite_evicts_other:
  "map fst (cache demo_cache) = [''a'', ''b'']
   \<and> int (length (cache demo_cache)) = maxSize demo_cache
   \<and> fst (cm_has 1200 ''b'' demo_cache)
   \<and> map fst (cache (cm_set (\<lambda>_. 1200) 1200 ''a'' ''z'' None demo_cache)) = [''a'']"
  by (simp add: demo_cache_def cm_set_def cm_has_def evictOldest_def score_def Let_def AList.delete_eq)

subsection \<open>NodeFileSystem: the check of the resolved path\<close>

lemma resolvePath_prefix:
  "resolvePath w basePath filePath = Inr full \<Longrightarrow> prefix basePath full"
  by (auto simp: resolvePath_def Let_def split: if_splits)

lemma resolvePath_outside:
  "resolvePath w ''/work'' ''../other/x'' = Inl (PathOutside ''../other/x'')
   \<and> nfs_readFile w ''/work'' ''../other/x'' = (Inl (PathOutside ''../other/x''), [])"
  by (simp add: nfs_readFile_def resolvePath_def path_resolve_def isAbsolute_def Let_def)

text \<open>What the check does give: every path handed to the operating system by these
  operations begins with the characters of the root.\<close>

lemma nfs_calls_prefix:
  "\<forall>c \<in> set (snd (nfs_readFile w basePath filePath)). prefix basePath (call_path c)"
  "\<forall>c \<in> set (snd (nfs_readdir w basePath filePath)). prefix basePath (call_path c)"
  "\<forall>c \<in> set (snd (nfs_mkdir w basePath filePath recursive)). prefix basePath (call_path c)"
  "\<forall>c \<in> set (snd (nfs_remove w basePath filePath)). prefix basePath (call_path c)"
  "\<forall>c \<in> set (snd (nfs_stat w basePath filePath)). prefix basePath (call_path c)"
  "\<forall>c \<in> set (snd (nfs_exists w basePath filePath)). prefix basePath (call_path c)"
  by (auto simp: nfs_readFile_def nfs_readdir_def nfs_mkdir_def nfs_remove_def nfs_stat_def
      nfs_exists_def dest: resolvePath_prefix split: sum.splits option.splits if_splits)

lemma nfs_outside_no_calls:
  assumes "\<not> prefix basePath (path_resolve (os_cwd w) [basePath, filePath])"
  shows "nfs_readFile w basePath filePath = (Inl (PathOutside filePath), [])"
    and "nfs_writeFile w basePath filePath content = (Inl (PathOutside filePath), [])"
    and "nfs_readdir w basePath filePath = (Inl (PathOutside filePath), [])"
    and "nfs_mkdir w basePath filePath recursive = (Inl (PathOutside filePath), [])"
    and "nfs_remove w basePath filePath = (Inl (PathOutside filePath), [])"
    and "nfs_stat w basePath filePath = (Inl (PathOutside filePath), [])"
  using assms
  by (simp_all add: nfs_readFile_def nfs_writeFile_def nfs_readdir_def nfs_mkdir_def
      nfs_remove_def nfs_stat_def resolvePath_def Let_def)

text \<open>
  Claim C1. A resolved path that is not a descendant of the root is meant to be refused
  before the operating system is reached. With the root \<^verbatim>\<open>/work\<close>, the path
  \<^verbatim>\<open>../work-evil/x\<close> resolves to \<^verbatim>\<open>/work-evil/x\<close>, which is not a descendant of the root
  but begins with its characters: \<^verbatim>\<open>resolvePath\<close> accepts it, and the operations hand it
  to the operating system.
\<close>

theorem resolvePath_sibling_escapes:
  "resolvePath w ''/work'' ''../work-evil/x'' = Inr ''/work-evil/x''
   \<and> \<not> descendant ''/work'' ''/work-evil/x''
   \<and> snd (nfs_readFile w ''/work'' ''../work-evil/x'') = [FsReadFile ''/work-evil/x'']
   \<and> snd (nfs_readdir w ''/work'' ''../work-evil/x'') = [FsReaddir ''/work-evil/x'']
   \<and> snd (nfs_stat w ''/work'' ''../work-evil/x'') = [FsStat ''/work-evil/x'']"
proof -
  have r: "resolvePath w ''/work'' ''../work-evil/x'' = Inr ''/work-evil/x''"
    by (simp add: resolvePath_def path_resolve_def isAbsolute_def Let_def)
  have d: "\<not> descendant ''/work'' ''/work-evil/x''"
    by (simp add: descendant_def)
  have 1: "snd (nfs_readFile w ''/work'' ''../work-evil/x'') = [FsReadFile ''/work-evil/x'']"
    by (simp add: nfs_readFile_def r split: sum.splits)
  have 2: "snd (nfs_readdir w ''/work'' ''../work-evil/x'') = [FsReaddir ''/work-evil/x'']"
    by (simp add: nfs_readdir_def r split: sum.splits)
  have 3: "snd (nfs_stat w ''/work'' ''../work-evil/x'') = [FsStat ''/work-evil/x'']"
    by (simp add: nfs_stat_def r split: sum.splits)
  from r d 1 2 3 show ?thesis by simp
qed

subsection \<open>OptimizedFileSystem: a write followed by a read\<close>

lemma map_of_cm_set:
  "map_of (cache (cm_set clock now key v None c)) key
     = Some \<lparr>entry_value = v, timestamp = now, ttl = defaultTTL c, hits = 0\<rparr>"
  by (simp add: cm_set_def Let_def AList.update_conv')

lemma cm_get_after_set:
  assumes "t_r - t_w \<le> defaultTTL c"
  shows "fst (cm_get t_r key (cm_set clock t_w key v None c)) = Some v"
  using assms by (simp add: cm_get_def map_of_cm_set)

lemma map_of_cm_delete: "map_of (cache (snd (cm_delete key c))) key = None"
  by (simp add: cm_delete_def map_of_eq_None_iff AList.delete_notin_dom)

lemma ofs_writeFile_ok:
  assumes "fst (fst (ofs_writeFile w clock t_w p content s)) = Inr u"
  shows "ofs_cache (snd (ofs_writeFile w clock t_w p content s))
           = cm_set clock t_w p content None (ofs_cache s)
       \<and> statsCache (snd (ofs_writeFile w clock t_w p content s))
           = snd (cm_delete p (statsCache s))"
  using assms by (auto simp: ofs_writeFile_def split: prod.splits sum.splits)

text \<open>
  Claim C5. When \<^verbatim>\<open>writeFile(p, c)\<close> succeeds at time \<open>t_w\<close> and \<^verbatim>\<open>readFile(p)\<close> follows at
  a time \<open>t_r\<close> at which the entry has not expired, the read returns exactly \<open>c\<close>, whatever
  the operating system would answer and without any call to it; and after the write the
  metadata cache has no entry for \<open>p\<close>.
\<close>

theorem write_then_read:
  assumes ok: "fst (fst (ofs_writeFile w clock t_w p content s)) = Inr u"
    and fresh: "t_r - t_w \<le> defaultTTL (ofs_cache s)"
  shows "fst (ofs_readFile w' t_r clock' t_s p (snd (ofs_writeFile w clock t_w p content s)))
           = (Inr content, [])
       \<and> map_of (cache (statsCache (snd (ofs_writeFile w clock t_w p content s)))) p = None"
proof -
  let ?s1 = "snd (ofs_writeFile w clock t_w p content s)"
  from ofs_writeFile_ok[OF ok]
  have c: "ofs_cache ?s1 = cm_set clock t_w p content None (ofs_cache s)"
    and st: "statsCache ?s1 = snd (cm_delete p (statsCache s))" by simp_all
  from cm_get_after_set[OF fresh]
  have "fst (cm_get t_r p (ofs_cache ?s1)) = Some content" by (simp add: c)
  then have "fst (ofs_readFile w' t_r clock' t_s p ?s1) = (Inr content, [])"
    by (cases "cm_get t_r p (ofs_cache ?s1)") (simp add: ofs_readFile_def)
  moreover have "map_of (cache (statsCache ?s1)) p = None"
    unfolding st by (rule map_of_cm_delete)
  ultimately show ?thesis by simp
qed

lemma demo_resolve: "resolvePath demo_os ''/work'' ''notes.txt'' = Inr ''/work/notes.txt''"
  by (simp add: resolvePath_def path_resolve_def isAbsolute_def Let_def)

lemma demo_new: "ofs_basePath (OptimizedFileSystem_new demo_os ''/work'') = ''/work''"
  by (simp add: OptimizedFileSystem_new_def NodeFileSystem_new_def path_resolve_def isAbsolute_def Let_def)

theorem write_then_read_witness:
  "fst (fst (ofs_writeFile demo_os (\<lambda>_. 1000) 1000 ''notes.txt'' ''hello''
               (OptimizedFileSystem_new demo_os ''/work''))) = Inr ()
   \<and> (61000::int) - 1000 \<le> defaultTTL (ofs_cache (OptimizedFileSystem_new demo_os ''/work''))
   \<and> fst (ofs_readFile demo_os 61000 (\<lambda>_. 61000) 61000 ''notes.txt''
            (snd (ofs_writeFile demo_os (\<lambda>_. 1000) 1000 ''notes.txt'' ''hello''
                    (OptimizedFileSystem_new demo_os ''/work''))))
       = (Inr ''hello'', [])
   \<and> map_of (cache (statsCache (snd (ofs_writeFile demo_os (\<lambda>_. 1000) 1000 ''notes.txt'' ''hello''
                    (OptimizedFileSystem_new demo_os ''/work''))))) ''notes.txt'' = None"
proof -
  have ok: "fst (fst (ofs_writeFile demo_os (\<lambda>_. 1000) 1000 ''notes.txt'' ''hello''
               (OptimizedFileSystem_new demo_os ''/work''))) = Inr ()"
    by (simp add: ofs_writeFile_def nfs_writeFile_def demo_new demo_resolve) (simp add: demo_os_def)
  have fresh: "(61000::int) - 1000 \<le> defaultTTL (ofs_cache (OptimizedFileSystem_new demo_os ''/work''))"
    by (simp add: OptimizedFileSystem_new_def CacheManager_new_def)
  from ok fresh write_then_read[OF ok fresh, of demo_os "\<lambda>_. 61000" 61000]
  show ?thesis by blast
qed

subsection \<open>TerminalManager\<close>

lemma demo_tm_eval:
  "demo_tm =
     \<lparr>sessions = [(''s1'', \<lparr>session_id = ''s1'', terminal_wd = ''/work'',
                           processes = [(Some 4242, \<lparr>pid = Some 4242\<rparr>)],
                           history = [''node server.js''], session_cwd = ''/work''\<rparr>)],
      workingDirectory = ''/work'', signals = [], console = []\<rparr>"
  by (simp add: demo_tm_def executeCommand_def createSession_def TerminalManager_new_def
      getSession_def NodeTerminal_spawn_def demo_os_def Let_def)

lemma getSession_known: "getSession sessionId tm = Some session \<Longrightarrow> sessionId \<in> fst ` set (sessions tm)"
  unfolding getSession_def by (metis map_of_eq_None_iff option.distinct(1))

lemma keys_update_known:
  "sessionId \<in> fst ` set al \<Longrightarrow> fst ` set (AList.update sessionId session al) = fst ` set al"
  by (auto simp: AList.dom_update)

lemma keys_delete: "fst ` set (AList.delete k al) = fst ` set al - {k}"
  by (auto simp: AList.delete_eq image_iff)

lemma sessions_keys_executeCommand:
  "fst ` set (sessions (snd (executeCommand w sessionId command args tm))) = fst ` set (sessions tm)"
proof (cases "getSession sessionId tm")
  case None
  then show ?thesis by (simp add: executeCommand_def)
next
  case (Some session0)
  note k = keys_update_known[OF getSession_known[OF Some]]
  show ?thesis
    by (simp add: executeCommand_def Some Let_def k split: prod.splits sum.splits)
qed

lemma sessions_keys_killProcess:
  "fst ` set (sessions (snd (killProcess sessionId p tm))) = fst ` set (sessions tm)"
proof (cases "getSession sessionId tm")
  case None
  then show ?thesis by (simp add: killProcess_def)
next
  case (Some session)
  note k = keys_update_known[OF getSession_known[OF Some]]
  show ?thesis by (simp add: killProcess_def Some k split: option.splits)
qed

lemma sessions_keys_onProcessExit:
  "fst ` set (sessions (onProcessExit sessionId q tm)) = fst ` set (sessions tm)"
proof (cases "getSession sessionId tm")
  case None
  then show ?thesis by (simp add: onProcessExit_def)
next
  case (Some session)
  note k = keys_update_known[OF getSession_known[OF Some]]
  show ?thesis by (simp add: onProcessExit_def Some k)
qed

lemma sessions_keys_destroySession:
  "fst ` set (sessions (snd (destroySession sessionId tm))) = fst ` set (sessions tm) - {sessionId}"
proof (cases "getSession sessionId tm")
  case None
  then have "sessionId \<notin> fst ` set (sessions tm)"
    by (simp add: getSession_def map_of_eq_None_iff)
  with None show ?thesis by (simp add: destroySession_def)
next
  case (Some session)
  then show ?thesis by (simp add: destroySession_def keys_delete)
qed

lemma sessions_keys_createSession:
  "fst ` set (sessions (snd (createSession given generated tm)))
     = insert (session_id (fst (createSession given generated tm))) (fst ` set (sessions tm))"
  by (simp add: createSession_def Let_def AList.dom_update)

text \<open>
  Claim C3, as the code has it. \<^verbatim>\<open>executeCommand\<close> on a session id that the multiplexer
  does not know fails with the session-not-found error and leaves the multiplexer as it
  was: no session is created. Sessions are created by \<^verbatim>\<open>createSession\<close> only:
  \<^verbatim>\<open>executeCommand\<close> (on any id), \<^verbatim>\<open>killProcess\<close> and the exit callback of a process leave
  the set of session ids as it was, \<^verbatim>\<open>destroySession\<close> takes its id out, and
  \<^verbatim>\<open>createSession\<close> adds the id of the session it returns.
\<close>

theorem executeCommand_unknown_session:
  "(getSession sessionId tm = None \<longrightarrow>
      executeCommand w sessionId command args tm = (Inl (SessionNotFound sessionId), tm))
   \<and> fst ` set (sessions (snd (executeCommand w sessionId command args tm)))
       = fst ` set (sessions tm)
   \<and> fst ` set (sessions (snd (killProcess sessionId p tm))) = fst ` set (sessions tm)
   \<and> fst ` set (sessions (onProcessExit sessionId q tm)) = fst ` set (sessions tm)
   \<and> fst ` set (sessions (snd (destroySession sessionId tm)))
       = fst ` set (sessions tm) - {sessionId}
   \<and> fst ` set (sessions (snd (createSession given generated tm)))
       = insert (session_id (fst (createSession given generated tm))) (fst ` set (sessions tm))"
proof (intro conjI impI)
  assume "getSession sessionId tm = None"
  then show "executeCommand w sessionId command args tm = (Inl (SessionNotFound sessionId), tm)"
    by (simp add: executeCommand_def)
qed (rule sessions_keys_executeCommand sessions_keys_killProcess sessions_keys_onProcessExit
      sessions_keys_destroySession sessions_keys_createSession)+

theorem executeCommand_unknown_session_witness:
  "getSession ''s2'' demo_tm = None
   \<and> executeCommand demo_os ''s2'' ''pwd'' [] demo_tm = (Inl (SessionNotFound ''s2''), demo_tm)
   \<and> fst ` set (sessions (snd (executeCommand demo_os ''s2'' ''pwd'' [] demo_tm))) = {''s1''}
   \<and> fst ` set (sessions (snd (createSession (Some ''s2'') ''terminal_1'' demo_tm)))
       = {''s2'', ''s1''}"
proof -
  have h: "getSession ''s2'' demo_tm = None" by (simp add: getSession_def demo_tm_eval)
  have k: "fst ` set (sessions demo_tm) = {''s1''}" by (simp add: demo_tm_eval)
  have i: "session_id (fst (createSession (Some ''s2'') ''terminal_1'' demo_tm)) = ''s2''"
    by (simp add: createSession_def Let_def)
  note t = executeCommand_unknown_session[of "''s2''" demo_tm demo_os "''pwd''" "[]" 0 None
      "Some ''s2''" "''terminal_1''"]
  from t[THEN conjunct1] h have a: "executeCommand demo_os ''s2'' ''pwd'' [] demo_tm
                     = (Inl (SessionNotFound ''s2''), demo_tm)" by (rule mp)
  note b = t[THEN conjunct2, THEN conjunct1]
  note c = t[THEN conjunct2, THEN conjunct2, THEN conjunct2, THEN conjunct2, THEN conjunct2]
  from h a show ?thesis unfolding b c i k by simp
qed

text \<open>
  The claim as first stated (an unknown id is resolved or created lazily) fails on a fresh
  multiplexer: the call fails and the id is still unknown afterwards.
\<close>

theorem executeCommand_creates_no_session:
  "fst (executeCommand demo_os ''s1'' ''ls'' [] (TerminalManager_new ''/work''))
     = Inl (SessionNotFound ''s1'')
   \<and> getSession ''s1'' (snd (executeCommand demo_os ''s1'' ''ls'' [] (TerminalManager_new ''/work'')))
     = None"
  by (simp add: executeCommand_def getSession_def TerminalManager_new_def)

text \<open>
  A command that cannot be started leaves a process without pid in the live-process map,
  under the key \<^verbatim>\<open>undefined\<close>; \<^verbatim>\<open>killProcess\<close>, which takes a number, does not reach it.
\<close>

lemma executeCommand_missing_command:
  "map (\<lambda>(k, s). processes s)
     (sessions (snd (executeCommand (demo_os\<lparr>os_spawn := (\<lambda>c a d. Inr None)\<rparr>) ''s1'' ''nosuch'' []
                       (snd (createSession (Some ''s1'') ''terminal_0'' (TerminalManager_new ''/work''))))))
     = [[(None, \<lparr>pid = None\<rparr>)]]"
  by (simp add: executeCommand_def createSession_def TerminalManager_new_def getSession_def
      NodeTerminal_spawn_def demo_os_def Let_def)

lemma getSession_update [simp]:
  "getSession sessionId (tm\<lparr>sessions := AList.update sessionId session (sessions tm)\<rparr>) = Some session"
  by (simp add: getSession_def AList.update_conv')

lemma getSession_signals [simp]:
  "getSession sessionId (tm\<lparr>signals := x\<rparr>) = getSession sessionId tm"
  by (simp add: getSession_def)

text \<open>
  Claim C7. \<^verbatim>\<open>killProcess\<close> answers false and changes nothing for an unknown session and
  for an unknown pid. For a live pid it answers true, sends \<^verbatim>\<open>SIGTERM\<close> to the process,
  and removes the pid, and only it, from the session's live-process map: one entry less;
  a second \<^verbatim>\<open>killProcess\<close> of the pid then answers false and changes nothing.
\<close>

theorem killProcess_spec:
  "(getSession sessionId tm = None \<longrightarrow> killProcess sessionId p tm = (False, tm))
   \<and> (\<forall>session. getSession sessionId tm = Some session \<and> map_of (processes session) (Some p) = None
         \<longrightarrow> killProcess sessionId p tm = (False, tm))
   \<and> (\<forall>session process.
         getSession sessionId tm = Some session \<and> map_of (processes session) (Some p) = Some process
         \<and> distinct (map fst (processes session)) \<longrightarrow>
           fst (killProcess sessionId p tm)
           \<and> signals (snd (killProcess sessionId p tm)) = signals tm @ [(pid process, ''SIGTERM'')]
           \<and> sessions (snd (killProcess sessionId p tm))
               = AList.update sessionId
                   (session\<lparr>processes := AList.delete (Some p) (processes session)\<rparr>) (sessions tm)
           \<and> getSession sessionId (snd (killProcess sessionId p tm))
               = Some (session\<lparr>processes := AList.delete (Some p) (processes session)\<rparr>)
           \<and> map_of (AList.delete (Some p) (processes session))
               = (map_of (processes session))(Some p := None)
           \<and> Suc (length (AList.delete (Some p) (processes session))) = length (processes session)
           \<and> killProcess sessionId p (snd (killProcess sessionId p tm))
               = (False, snd (killProcess sessionId p tm)))"
proof (intro conjI allI impI)
  assume "getSession sessionId tm = None"
  then show "killProcess sessionId p tm = (False, tm)" by (simp add: killProcess_def)
next
  fix session
  assume "getSession sessionId tm = Some session \<and> map_of (processes session) (Some p) = None"
  then show "killProcess sessionId p tm = (False, tm)" by (simp add: killProcess_def)
next
  fix session process
  assume a: "getSession sessionId tm = Some session
         \<and> map_of (processes session) (Some p) = Some process
         \<and> distinct (map fst (processes session))"
  let ?session' = "session\<lparr>processes := AList.delete (Some p) (processes session)\<rparr>"
  let ?tm' = "tm\<lparr>sessions := AList.update sessionId ?session' (sessions tm),
                 signals := signals tm @ [(pid process, ''SIGTERM'')]\<rparr>"
  from a have k: "killProcess sessionId p tm = (True, ?tm')" by (simp add: killProcess_def)
  from a have "(Some p, process) \<in> set (processes session)" by (simp add: map_of_SomeD)
  then have inkeys: "Some p \<in> fst ` set (processes session)" by (force simp: image_iff)
  have gone: "map_of (processes ?session') (Some p) = None"
    by (simp add: AList.delete_conv')
  have g': "getSession sessionId ?tm' = Some ?session'" by (simp add: getSession_def AList.update_conv')
  show "fst (killProcess sessionId p tm)" by (simp add: k)
  show "signals (snd (killProcess sessionId p tm)) = signals tm @ [(pid process, ''SIGTERM'')]"
    by (simp add: k)
  show "sessions (snd (killProcess sessionId p tm))
               = AList.update sessionId ?session' (sessions tm)" by (simp add: k)
  show "getSession sessionId (snd (killProcess sessionId p tm)) = Some ?session'"
    using g' by (simp add: k)
  show "map_of (AList.delete (Some p) (processes session))
          = (map_of (processes session))(Some p := None)"
    by (rule AList.delete_conv')
  show "Suc (length (AList.delete (Some p) (processes session))) = length (processes session)"
    using a inkeys by (simp add: length_delete_present)
  show "killProcess sessionId p (snd (killProcess sessionId p tm))
               = (False, snd (killProcess sessionId p tm))"
    unfolding k snd_conv using g' gone by (simp add: killProcess_def)
qed

theorem killProcess_spec_witness:
  "getSession ''s1'' demo_tm
     = Some \<lparr>session_id = ''s1'', terminal_wd = ''/work'',
             processes = [(Some 4242, \<lparr>pid = Some 4242\<rparr>)],
             history = [''node server.js''], session_cwd = ''/work''\<rparr>
   \<and> fst (killProcess ''s1'' 4242 demo_tm)
   \<and> signals (snd (killProcess ''s1'' 4242 demo_tm)) = [(Some 4242, ''SIGTERM'')]
   \<and> map (\<lambda>(k, s). (k, processes s)) (sessions (snd (killProcess ''s1'' 4242 demo_tm))) = [(''s1'', [])]
   \<and> killProcess ''s1'' 4242 (snd (killProcess ''s1'' 4242 demo_tm))
        = (False, snd (killProcess ''s1'' 4242 demo_tm))
   \<and> killProcess ''s1'' 7 demo_tm = (False, demo_tm)
   \<and> killProcess ''nobody'' 4242 demo_tm = (False, demo_tm)"
proof -
  let ?s = "\<lparr>session_id = ''s1'', terminal_wd = ''/work'',
             processes = [(Some 4242, \<lparr>pid = Some 4242\<rparr>)],
             history = [''node server.js''], session_cwd = ''/work''\<rparr>"
  have g: "getSession ''s1'' demo_tm = Some ?s" by (simp add: getSession_def demo_tm_eval)
  have l: "map_of (processes ?s) (Some 4242) = Some \<lparr>pid = Some 4242\<rparr>" by simp
  have n: "map_of (processes ?s) (Some 7) = None" by simp
  have d: "distinct (map fst (processes ?s))" by simp
  have u: "getSession ''nobody'' demo_tm = None" by (simp add: getSession_def demo_tm_eval)
  have s0: "signals demo_tm = []" "sessions demo_tm = [(''s1'', ?s)]" by (simp_all add: demo_tm_eval)
  note live = killProcess_spec[of "''s1''" demo_tm 4242, THEN conjunct2, THEN conjunct2,
      rule_format, of ?s "\<lparr>pid = Some 4242\<rparr>"]
  note dead = killProcess_spec[of "''s1''" demo_tm 7, THEN conjunct2, THEN conjunct1, rule_format, of ?s]
  note unk = killProcess_spec[of "''nobody''" demo_tm 4242, THEN conjunct1, rule_format]
  from live g l d have
    k1: "fst (killProcess ''s1'' 4242 demo_tm)"
    and k2: "signals (snd (killProcess ''s1'' 4242 demo_tm))
               = signals demo_tm @ [(pid \<lparr>pid = Some 4242\<rparr>, ''SIGTERM'')]"
    and k3: "sessions (snd (killProcess ''s1'' 4242 demo_tm))
               = AList.update ''s1'' (?s\<lparr>processes := AList.delete (Some 4242) (processes ?s)\<rparr>)
                   (sessions demo_tm)"
    and k4: "killProcess ''s1'' 4242 (snd (killProcess ''s1'' 4242 demo_tm))
        = (False, snd (killProcess ''s1'' 4242 demo_tm))"
    by blast+
  from dead g n have k5: "killProcess ''s1'' 7 demo_tm = (False, demo_tm)" by blast
  from unk u have k6: "killProcess ''nobody'' 4242 demo_tm = (False, demo_tm)" by blast
  have k3': "map (\<lambda>(k, s). (k, processes s)) (sessions (snd (killProcess ''s1'' 4242 demo_tm))) = [(''s1'', [])]"
    unfolding k3 s0 by (simp add: AList.delete_eq)
  from g k1 k2 k3' k4 k5 k6 s0 show ?thesis by simp
qed

subsection \<open>PreviewManager: ports, failures and stops\<close>

lemma findAvailablePort_from_fresh:
  "findAvailablePort_from used bindable candidate hi = Inr chosen \<Longrightarrow>
     chosen \<notin> used \<and> bindable chosen \<and> candidate \<le> chosen \<and> chosen \<le> hi"
proof (induction used bindable candidate hi rule: findAvailablePort_from.induct)
  case (1 used bindable candidate hi)
  show ?case
  proof (cases "candidate \<le> hi")
    case False
    with "1.prems" show ?thesis by (simp add: findAvailablePort_from.simps)
  next
    case True
    show ?thesis
    proof (cases "candidate \<notin> used \<and> bindable candidate")
      case t: True
      with True "1.prems" show ?thesis by (simp add: findAvailablePort_from.simps[of used bindable candidate hi])
    next
      case f: False
      with True "1.prems" have "findAvailablePort_from used bindable (candidate + 1) hi = Inr chosen"
        by (simp add: findAvailablePort_from.simps[of used bindable candidate hi])
      from "1.IH"[OF True f this] show ?thesis by simp
    qed
  qed
qed

lemma findAvailablePort_fresh:
  "findAvailablePort bindable m = Inr chosen \<Longrightarrow>
     chosen \<notin> usedPorts m \<and> bindable chosen \<and> portRange_min m \<le> chosen \<and> chosen \<le> portRange_max m"
  unfolding findAvailablePort_def by (rule findAvailablePort_from_fresh)

lemma demo_choose: "choosePort (\<lambda>_. True) demo_config PreviewManager_new = Inr 3000"
  by (simp add: choosePort_def demo_config_def findAvailablePort_def PreviewManager_new_def
      findAvailablePort_from.simps[of _ _ 3000])

lemma createPreview_failed:
  assumes "choosePort bindable config m = Inr chosen"
  shows "fst (createPreview generated now bindable (Some msg) readdir_ok path config m)
           = Inl (StartFailed msg)"
    and "map_option status
           (map_of (previews (snd (createPreview generated now bindable (Some msg) readdir_ok path config m)))
              generated) = Some Failed"
    and "map_option port
           (map_of (previews (snd (createPreview generated now bindable (Some msg) readdir_ok path config m)))
              generated) = Some chosen"
    and "usedPorts (snd (createPreview generated now bindable (Some msg) readdir_ok path config m))
           = insert chosen (usedPorts m)"
  using assms by (simp_all add: createPreview_def registerPreview_def Let_def AList.update_conv')

lemma createPreview_started:
  assumes "choosePort bindable config m = Inr chosen"
  shows "map_option status
           (map_of (previews (snd (createPreview generated now bindable None readdir_ok path config m)))
              generated) = Some Running"
    and "map_option port
           (map_of (previews (snd (createPreview generated now bindable None readdir_ok path config m)))
              generated) = Some chosen"
    and "usedPorts (snd (createPreview generated now bindable None readdir_ok path config m))
           = insert chosen (usedPorts m)"
  using assms by (simp_all add: createPreview_def registerPreview_def Let_def AList.update_conv')

lemma stopPreview_unknown:
  "map_of (previews m) previewId = None \<Longrightarrow> stopPreview stop_result previewId m = (False, m)"
  by (simp add: stopPreview_def)

lemma stopPreview_failed:
  "map_of (previews m) previewId = Some preview \<Longrightarrow>
     stopPreview (Some msg) previewId m
       = (False, m\<lparr>preview_emitted := preview_emitted m @ [PreviewError previewId msg],
                   server_calls := server_calls m @ [(previewId, ServerStop)]\<rparr>)"
  by (simp add: stopPreview_def)

lemma stopPreview_stopped:
  "map_of (previews m) previewId = Some preview \<Longrightarrow>
     stopPreview None previewId m
       = (True, m\<lparr>usedPorts := usedPorts m - {port preview},
                  previews := AList.delete previewId (previews m),
                  preview_emitted := preview_emitted m @ [PreviewStopped previewId],
                  server_calls := server_calls m @ [(previewId, ServerStop)]\<rparr>)"
  by (simp add: stopPreview_def)

lemma demo_pm_eval:
  "demo_pm =
     \<lparr>previews = [(''preview_1'',
                    \<lparr>preview_id = ''preview_1'', port = 3000, url = ''http://localhost:3000'',
                     status = Running, projectPath = ''proj'', lastActivity = 0\<rparr>)],
      portRange_min = 3000, portRange_max = 9000, usedPorts = {3000},
      preview_emitted = [PreviewStarted ''preview_1''],
      server_calls = [(''preview_1'', ServerStart)], process_env = [],
      watched = [''preview_1'']\<rparr>"
  by (simp add: demo_pm_def createPreview_def registerPreview_def demo_choose Let_def)
    (simp add: demo_config_def PreviewManager_new_def int_digits_def nat_digits.simps)

text \<open>
  Calls of \<^verbatim>\<open>createPreview\<close> that run one after the other: the second, when it looks for
  a port itself, gets a port different from the first's.
\<close>

lemma createPreview_registers:
  assumes "createPreview generated now bindable start_result readdir_ok path config m = (Inr inst, m')"
  shows "choosePort bindable config m = Inr (port inst) \<and> usedPorts m' = insert (port inst) (usedPorts m)"
  using assms
  by (auto simp: createPreview_def registerPreview_def Let_def split: sum.splits option.splits)

lemma sequential_creates_distinct_ports:
  assumes c1: "createPreview g1 t1 b1 r1 d1 p1 c1 m = (Inr i1, m1)"
    and c2: "createPreview g2 t2 b2 r2 d2 p2 c2 m1 = (Inr i2, m2)"
    and auto2: "cfg_port c2 = None"
  shows "port i1 \<noteq> port i2"
proof -
  from createPreview_registers[OF c1] have "port i1 \<in> usedPorts m1" by simp
  moreover from createPreview_registers[OF c2] auto2
  have "findAvailablePort b2 m1 = Inr (port i2)" by (simp add: choosePort_def)
  then have "port i2 \<notin> usedPorts m1" by (simp add: findAvailablePort_fresh)
  ultimately show ?thesis by auto
qed

text \<open>
  Calls that overlap: when both look for a port on the same orchestrator, with the same
  answers of the bind test, both register the port the first one found.
\<close>

lemma choosePort_no_explicit:
  "cfg_port config = None \<Longrightarrow> choosePort bindable config m = findAvailablePort bindable m"
  by (simp add: choosePort_def)

lemma registerPreview_state:
  "previews (snd (registerPreview generated now start_result readdir_ok path config chosen m))
     = AList.update generated
         (\<lparr>preview_id = generated, port = chosen,
           url = ''http://''
                 @ (case cfg_host config of
                      None \<Rightarrow> ''localhost''
                    | Some h \<Rightarrow> if h = [] then ''localhost'' else h)
                 @ '':'' @ int_digits chosen,
           status = (case start_result of None \<Rightarrow> Running | Some msg \<Rightarrow> Failed),
           projectPath = path, lastActivity = now\<rparr>)
         (previews m)"
  "usedPorts (snd (registerPreview generated now start_result readdir_ok path config chosen m))
     = insert chosen (usedPorts m)"
  by (simp_all add: registerPreview_def Let_def split: option.splits)

lemma overlapping_creates_same_port:
  assumes na: "cfg_port (call_config a) = None" and nb: "cfg_port (call_config b) = None"
    and same: "call_bindable a = call_bindable b"
    and ch: "findAvailablePort (call_bindable a) m = Inr chosen"
    and ids: "call_generated a \<noteq> call_generated b"
  shows "map_option port (map_of (previews (snd (overlapping_creates a b m))) (call_generated a))
           = Some chosen
       \<and> map_option port (map_of (previews (snd (overlapping_creates a b m))) (call_generated b))
           = Some chosen"
proof -
  have ca: "choosePort (call_bindable a) (call_config a) m = Inr chosen"
    using na ch by (simp add: choosePort_no_explicit)
  have cb: "choosePort (call_bindable b) (call_config b) m = Inr chosen"
    using nb ch same by (simp add: choosePort_no_explicit)
  show ?thesis
    using ids
    by (simp add: overlapping_creates_def Let_def ca cb register_call_def registerPreview_state
        AList.update_conv')
qed

lemma demo_overlap_eval:
  "overlapping_creates demo_call_a demo_call_b PreviewManager_new
     = ((Inr \<lparr>preview_id = ''preview_a'', port = 3000, url = ''http://localhost:3000'',
               status = Running, projectPath = ''proj'', lastActivity = 0\<rparr>,
         Inr \<lparr>preview_id = ''preview_b'', port = 3000, url = ''http://localhost:3000'',
               status = Running, projectPath = ''proj'', lastActivity = 1\<rparr>),
        \<lparr>previews = [(''preview_a'',
                       \<lparr>preview_id = ''preview_a'', port = 3000, url = ''http://localhost:3000'',
                        status = Running, projectPath = ''proj'', lastActivity = 0\<rparr>),
                      (''preview_b'',
                       \<lparr>preview_id = ''preview_b'', port = 3000, url = ''http://localhost:3000'',
                        status = Running, projectPath = ''proj'', lastActivity = 1\<rparr>)],
         portRange_min = 3000, portRange_max = 9000, usedPorts = {3000},
         preview_emitted = [PreviewStarted ''preview_a'', PreviewStarted ''preview_b''],
         server_calls = [(''preview_a'', ServerStart), (''preview_b'', ServerStart)],
         process_env = [], watched = [''preview_a'', ''preview_b'']\<rparr>)"
  by (simp add: overlapping_creates_def register_call_def registerPreview_def demo_call_a_def
      demo_call_b_def demo_choose Let_def)
    (simp add: registerPreview_def Let_def demo_config_def PreviewManager_new_def int_digits_def
      nat_digits.simps)

lemma demo_sequential_eval:
  "map (\<lambda>(k, p). (k, port p, status p))
     (previews (snd (createPreview_call demo_call_b
                       (snd (createPreview_call demo_call_a PreviewManager_new)))))
     = [(''preview_a'', 3000, Running), (''preview_b'', 3001, Running)]"
proof -
  have a: "snd (createPreview_call demo_call_a PreviewManager_new)
             = \<lparr>previews = [(''preview_a'',
                       \<lparr>preview_id = ''preview_a'', port = 3000, url = ''http://localhost:3000'',
                        status = Running, projectPath = ''proj'', lastActivity = 0\<rparr>)],
         portRange_min = 3000, portRange_max = 9000, usedPorts = {3000},
         preview_emitted = [PreviewStarted ''preview_a''],
         server_calls = [(''preview_a'', ServerStart)],
         process_env = [], watched = [''preview_a'']\<rparr>"
    by (simp add: createPreview_call_def createPreview_def registerPreview_def demo_call_a_def
        demo_choose Let_def)
      (simp add: demo_config_def PreviewManager_new_def int_digits_def nat_digits.simps)
  have c: "choosePort (\<lambda>_. True) demo_config
             \<lparr>previews = [(''preview_a'',
                       \<lparr>preview_id = ''preview_a'', port = 3000, url = ''http://localhost:3000'',
                        status = Running, projectPath = ''proj'', lastActivity = 0\<rparr>)],
         portRange_min = 3000, portRange_max = 9000, usedPorts = {3000},
         preview_emitted = [PreviewStarted ''preview_a''],
         server_calls = [(''preview_a'', ServerStart)],
         process_env = [], watched = [''preview_a'']\<rparr> = Inr 3001"
    by (simp add: choosePort_def demo_config_def findAvailablePort_def
        findAvailablePort_from.simps[of _ _ 3000] findAvailablePort_from.simps[of _ _ 3001])
  show ?thesis
    unfolding a
    by (simp add: createPreview_call_def createPreview_def demo_call_b_def c)
      (simp add: registerPreview_def Let_def)
qed

text \<open>
  Claim C9. Two calls of \<^verbatim>\<open>createPreview\<close> with no port in their configuration are meant
  never to get the same port. When the second call starts while the first waits for its
  port, both find port 3000 free and neither is in the used-port set yet; both register
  it, and two running instances hold port 3000. The same two calls, one after the other,
  get the ports 3000 and 3001.
\<close>

theorem overlapping_creates_share_port:
  "fst (overlapping_creates demo_call_a demo_call_b PreviewManager_new)
     = (Inr \<lparr>preview_id = ''preview_a'', port = 3000, url = ''http://localhost:3000'',
             status = Running, projectPath = ''proj'', lastActivity = 0\<rparr>,
        Inr \<lparr>preview_id = ''preview_b'', port = 3000, url = ''http://localhost:3000'',
             status = Running, projectPath = ''proj'', lastActivity = 1\<rparr>)
   \<and> map (\<lambda>(k, p). (k, port p, status p))
        (previews (snd (overlapping_creates demo_call_a demo_call_b PreviewManager_new)))
       = [(''preview_a'', 3000, Running), (''preview_b'', 3000, Running)]
   \<and> usedPorts (snd (overlapping_creates demo_call_a demo_call_b PreviewManager_new)) = {3000}
   \<and> map (\<lambda>(k, p). (k, port p, status p))
        (previews (snd (createPreview_call demo_call_b
                          (snd (createPreview_call demo_call_a PreviewManager_new)))))
       = [(''preview_a'', 3000, Running), (''preview_b'', 3001, Running)]"
  by (simp add: demo_overlap_eval demo_sequential_eval)

text \<open>
  Claim C2, as the code has it. When the supervisor's start fails, \<^verbatim>\<open>createPreview\<close>
  propagates the failure and leaves the instance registered with the status \<^verbatim>\<open>error\<close>
  (never \<^verbatim>\<open>starting\<close>), its port still in the used-port set. \<^verbatim>\<open>stopPreview\<close> of an unknown
  id answers false and changes nothing; when the supervisor's stop fails it answers false
  and leaves the registry and the used-port set as they were; when the stop succeeds it
  answers true, removes the instance and takes its port out of the used-port set, and
  any later \<^verbatim>\<open>stopPreview\<close> of the id answers false and changes nothing.
\<close>

theorem preview_failure_and_stop:
  "(\<forall>chosen msg. choosePort bindable config m = Inr chosen \<longrightarrow>
       fst (createPreview generated now bindable (Some msg) readdir_ok path config m)
         = Inl (StartFailed msg)
       \<and> map_option status
           (map_of (previews (snd (createPreview generated now bindable (Some msg) readdir_ok path config m)))
              generated) = Some Failed
       \<and> map_option port
           (map_of (previews (snd (createPreview generated now bindable (Some msg) readdir_ok path config m)))
              generated) = Some chosen
       \<and> chosen \<in> usedPorts (snd (createPreview generated now bindable (Some msg) readdir_ok path config m)))
   \<and> (map_of (previews m) previewId = None \<longrightarrow> stopPreview stop_result previewId m = (False, m))
   \<and> (\<forall>preview. map_of (previews m) previewId = Some preview \<longrightarrow>
         (\<forall>msg. \<not> fst (stopPreview (Some msg) previewId m)
                \<and> previews (snd (stopPreview (Some msg) previewId m)) = previews m
                \<and> usedPorts (snd (stopPreview (Some msg) previewId m)) = usedPorts m)
         \<and> fst (stopPreview None previewId m)
         \<and> map_of (previews (snd (stopPreview None previewId m))) previewId = None
         \<and> usedPorts (snd (stopPreview None previewId m)) = usedPorts m - {port preview}
         \<and> (\<forall>again. stopPreview again previewId (snd (stopPreview None previewId m))
                       = (False, snd (stopPreview None previewId m))))"
proof (intro conjI allI impI)
  fix chosen msg
  assume c: "choosePort bindable config m = Inr chosen"
  show "fst (createPreview generated now bindable (Some msg) readdir_ok path config m)
         = Inl (StartFailed msg)" by (rule createPreview_failed(1)[OF c])
  show "map_option status
           (map_of (previews (snd (createPreview generated now bindable (Some msg) readdir_ok path config m)))
              generated) = Some Failed" by (rule createPreview_failed(2)[OF c])
  show "map_option port
           (map_of (previews (snd (createPreview generated now bindable (Some msg) readdir_ok path config m)))
              generated) = Some chosen" by (rule createPreview_failed(3)[OF c])
  show "chosen \<in> usedPorts (snd (createPreview generated now bindable (Some msg) readdir_ok path config m))"
    by (simp add: createPreview_failed(4)[OF c])
next
  assume "map_of (previews m) previewId = None"
  then show "stopPreview stop_result previewId m = (False, m)" by (rule stopPreview_unknown)
next
  fix preview msg
  assume r: "map_of (previews m) previewId = Some preview"
  show "\<not> fst (stopPreview (Some msg) previewId m)" by (simp add: stopPreview_failed[OF r])
  show "previews (snd (stopPreview (Some msg) previewId m)) = previews m"
    by (simp add: stopPreview_failed[OF r])
  show "usedPorts (snd (stopPreview (Some msg) previewId m)) = usedPorts m"
    by (simp add: stopPreview_failed[OF r])
next
  fix preview
  assume r: "map_of (previews m) previewId = Some preview"
  show "fst (stopPreview None previewId m)" by (simp add: stopPreview_stopped[OF r])
  show "usedPorts (snd (stopPreview None previewId m)) = usedPorts m - {port preview}"
    by (simp add: stopPreview_stopped[OF r])
  show gone: "map_of (previews (snd (stopPreview None previewId m))) previewId = None"
    by (simp add: stopPreview_stopped[OF r] AList.delete_conv')
  fix again
  show "stopPreview again previewId (snd (stopPreview None previewId m))
                       = (False, snd (stopPreview None previewId m))"
    using gone by (rule stopPreview_unknown)
qed

theorem preview_failure_and_stop_witness:
  "choosePort (\<lambda>_. True) demo_config PreviewManager_new = Inr 3000
   \<and> fst (createPreview ''preview_2'' 5 (\<lambda>_. True) (Some ''no manifest'') False ''proj''
             demo_config PreviewManager_new) = Inl (StartFailed ''no manifest'')
   \<and> 3000 \<in> usedPorts (snd (createPreview ''preview_2'' 5 (\<lambda>_. True) (Some ''no manifest'') False
                                  ''proj'' demo_config PreviewManager_new))
   \<and> map_of (previews PreviewManager_new) ''preview_9'' = None
   \<and> stopPreview None ''preview_9'' PreviewManager_new = (False, PreviewManager_new)
   \<and> map_of (previews demo_pm) ''preview_1''
       = Some \<lparr>preview_id = ''preview_1'', port = 3000, url = ''http://localhost:3000'',
               status = Running, projectPath = ''proj'', lastActivity = 0\<rparr>
   \<and> fst (stopPreview None ''preview_1'' demo_pm)
   \<and> usedPorts (snd (stopPreview None ''preview_1'' demo_pm)) = {}
   \<and> previews (snd (stopPreview (Some ''busy'') ''preview_1'' demo_pm)) = previews demo_pm
   \<and> 3000 \<in> usedPorts (snd (stopPreview (Some ''busy'') ''preview_1'' demo_pm))"
proof -
  let ?p = "\<lparr>preview_id = ''preview_1'', port = 3000, url = ''http://localhost:3000'',
             status = Running, projectPath = ''proj'', lastActivity = 0\<rparr>"
  have c: "choosePort (\<lambda>_. True) demo_config PreviewManager_new = Inr 3000" by (rule demo_choose)
  have u: "map_of (previews PreviewManager_new) ''preview_9'' = None"
    by (simp add: PreviewManager_new_def)
  have r: "map_of (previews demo_pm) ''preview_1'' = Some ?p" by (simp add: demo_pm_eval)
  have up: "usedPorts demo_pm = {3000}" by (simp add: demo_pm_eval)
  note t = preview_failure_and_stop[of "\<lambda>_. True" demo_config PreviewManager_new "''preview_2''" 5
      False "''proj''" "''preview_9''" None]
  note t' = preview_failure_and_stop[of "\<lambda>_. True" demo_config demo_pm "''x''" 0 True "''proj''"
      "''preview_1''" None, THEN conjunct2, THEN conjunct2, rule_format, OF r]
  from t c have f: "fst (createPreview ''preview_2'' 5 (\<lambda>_. True) (Some ''no manifest'') False ''proj''
             demo_config PreviewManager_new) = Inl (StartFailed ''no manifest'')
   \<and> 3000 \<in> usedPorts (snd (createPreview ''preview_2'' 5 (\<lambda>_. True) (Some ''no manifest'') False
                                  ''proj'' demo_config PreviewManager_new))" by blast
  from t u have n: "stopPreview None ''preview_9'' PreviewManager_new = (False, PreviewManager_new)"
    by blast
  from t' have a: "fst (stopPreview None ''preview_1'' demo_pm)"
    and b: "usedPorts (snd (stopPreview None ''preview_1'' demo_pm)) = usedPorts demo_pm - {port ?p}"
    and k: "previews (snd (stopPreview (Some ''busy'') ''preview_1'' demo_pm)) = previews demo_pm"
    and d: "usedPorts (snd (stopPreview (Some ''busy'') ''preview_1'' demo_pm)) = usedPorts demo_pm"
    by blast+
  from c f n u r a b k d up show ?thesis by simp
qed

text \<open>
  The claim as first stated (no preview is left registered with a status other than
  \<^verbatim>\<open>running\<close> while its port is in the used-port set) fails when the start fails on a
  fresh orchestrator: the instance stays registered as \<^verbatim>\<open>error\<close> and port 3000 stays used.
\<close>

theorem createPreview_failure_keeps_port:
  "fst (createPreview ''preview_1'' 0 (\<lambda>_. True) (Some ''spawn failed'') True ''proj''
          demo_config PreviewManager_new) = Inl (StartFailed ''spawn failed'')
   \<and> map_option status
        (map_of (previews (snd (createPreview ''preview_1'' 0 (\<lambda>_. True) (Some ''spawn failed'') True
                                  ''proj'' demo_config PreviewManager_new))) ''preview_1'')
      = Some Failed
   \<and> 3000 \<in> usedPorts (snd (createPreview ''preview_1'' 0 (\<lambda>_. True) (Some ''spawn failed'') True
                                  ''proj'' demo_config PreviewManager_new))"
  by (simp add: createPreview_def registerPreview_def demo_choose Let_def AList.update_conv')

subsection \<open>Paths: the extension of a file name\<close>

lemma split_slash_not_Nil: "split_slash cur p \<noteq> []"
  by (induction p arbitrary: cur) auto

lemma split_slash_no_slash: "CHR ''/'' \<notin> set p \<Longrightarrow> split_slash cur p = [cur @ p]"
  by (induction p arbitrary: cur) auto

lemma last_split_slash_append:
  "last (split_slash cur (xs @ CHR ''/'' # ys)) = last (split_slash [] ys)"
  by (induction xs arbitrary: cur) (simp_all add: split_slash_not_Nil)

lemma last_component_last:
  assumes "last (split_slash [] p) \<noteq> []"
  shows "last_component p = last (split_slash [] p)"
proof -
  obtain ys y where L: "split_slash [] p = ys @ [y]"
    using split_slash_not_Nil[of "[]" p] by (cases "split_slash [] p" rule: rev_cases) auto
  with assms have y: "y \<noteq> []" by simp
  have "last_component p = y"
    unfolding last_component_def L using y by (cases "filter (\<lambda>s. s \<noteq> []) ys") simp_all
  with L show ?thesis by simp
qed

lemma last_component_file:
  assumes "dir = [] \<or> last dir = CHR ''/''" and "name \<noteq> []" and "CHR ''/'' \<notin> set name"
  shows "last_component (dir @ name) = name"
proof -
  have "last (split_slash [] (dir @ name)) = name"
  proof (cases "dir = []")
    case True
    with assms(3) show ?thesis by (simp add: split_slash_no_slash)
  next
    case False
    from False have "butlast dir @ [last dir] = dir" by (rule append_butlast_last_id)
    with assms(1) False have "dir = butlast dir @ [CHR ''/'']" by simp
    then obtain d where "dir = d @ [CHR ''/'']" ..
    then have "last (split_slash [] (dir @ name)) = last (split_slash [] name)"
      using last_split_slash_append[of "[]" d name] by simp
    with assms(3) show ?thesis by (simp add: split_slash_no_slash)
  qed
  with assms(2) show ?thesis by (simp add: last_component_last)
qed

lemma from_last_dot_none: "CHR ''.'' \<notin> set s \<Longrightarrow> from_last_dot s = None"
  by (induction s) auto

lemma from_last_dot_append:
  "CHR ''.'' \<notin> set e \<Longrightarrow> from_last_dot (xs @ CHR ''.'' # e) = Some (CHR ''.'' # e)"
  by (induction xs) (simp_all add: from_last_dot_none)

lemma extname_file:
  assumes d: "dir = [] \<or> last dir = CHR ''/''" and n: "stem \<noteq> []" "CHR ''/'' \<notin> set stem"
    and e: "e \<noteq> []" "CHR ''.'' \<notin> set e" "CHR ''/'' \<notin> set e"
  shows "extname (dir @ stem @ CHR ''.'' # e) = CHR ''.'' # e"
proof -
  let ?b = "stem @ CHR ''.'' # e"
  have b: "last_component (dir @ ?b) = ?b"
    using d n e by (intro last_component_file) auto
  have f: "from_last_dot ?b = Some (CHR ''.'' # e)" using e(2) by (rule from_last_dot_append)
  have l: "length (CHR ''.'' # e) \<noteq> length ?b" using n by simp
  have "last ?b = last e" using e by simp
  moreover have "last e \<in> set e" using e(1) by (rule last_in_set)
  then have "last e \<noteq> CHR ''.''" using e(2) by auto
  ultimately have lb: "last ?b \<noteq> CHR ''.''" by simp
  have nd: "?b \<noteq> ''..''"
  proof
    assume "?b = ''..''"
    then have "last ?b = last ''..''" by (rule arg_cong)
    with lb show False by simp
  qed
  show ?thesis unfolding extname_def b Let_def f using l nd by simp
qed

lemma shouldAutoRestart_ts_md:
  assumes "dir = [] \<or> last dir = CHR ''/''" and "stem \<noteq> []" and "CHR ''/'' \<notin> set stem"
  shows "shouldAutoRestart (dir @ stem @ ''.ts'')" and "\<not> shouldAutoRestart (dir @ stem @ ''.md'')"
proof -
  have "extname (dir @ stem @ CHR ''.'' # ''ts'') = CHR ''.'' # ''ts''"
    using assms by (intro extname_file) auto
  then show "shouldAutoRestart (dir @ stem @ ''.ts'')" by (simp add: shouldAutoRestart_def)
  have "extname (dir @ stem @ CHR ''.'' # ''md'') = CHR ''.'' # ''md''"
    using assms by (intro extname_file) auto
  then show "\<not> shouldAutoRestart (dir @ stem @ ''.md'')" by (simp add: shouldAutoRestart_def)
qed

lemma server_calls_restartPreview:
  "map_of (previews m) previewId = Some preview \<Longrightarrow>
   server_calls (snd (restartPreview now stop_result start_result previewId m))
     = server_calls m @ (previewId, ServerStop)
         # (if stop_result = None then [(previewId, ServerStart)] else [])"
  by (simp add: restartPreview_def split: option.splits)

subsection \<open>PreviewManager: the change handler\<close>

text \<open>
  Claim C8. For a registered instance, the handler of a change event restarts the
  instance exactly when the extension of the changed file is one of \<^verbatim>\<open>.js\<close>, \<^verbatim>\<open>.ts\<close>,
  \<^verbatim>\<open>.json\<close>, \<^verbatim>\<open>.env\<close>: then it is \<^verbatim>\<open>restartPreview\<close> applied after the update of
  \<open>lastActivity\<close>, and the supervisor is stopped (and started again when the stop
  succeeds). Otherwise the supervisor is not called and the orchestrator changes only in
  the \<open>lastActivity\<close> of the instance and the \<^verbatim>\<open>fileChanged\<close> notification. A file with a
  non-empty name before \<^verbatim>\<open>.ts\<close> restarts the instance; one ending in \<^verbatim>\<open>.md\<close> does not.
\<close>

theorem file_change_policy:
  assumes reg: "map_of (previews m) previewId = Some preview"
  shows "(shouldAutoRestart filePath \<longleftrightarrow> extname filePath \<in> {''.js'', ''.ts'', ''.json'', ''.env''})
   \<and> (\<forall>dir stem. (dir = [] \<or> last dir = CHR ''/'') \<and> stem \<noteq> [] \<and> CHR ''/'' \<notin> set stem \<longrightarrow>
         shouldAutoRestart (dir @ stem @ ''.ts'') \<and> \<not> shouldAutoRestart (dir @ stem @ ''.md''))
   \<and> (shouldAutoRestart filePath \<longrightarrow>
         onFileChange now now_restart stop_result start_result previewId filePath m
           = snd (restartPreview now_restart stop_result start_result previewId
                    (m\<lparr>previews := AList.update previewId (preview\<lparr>lastActivity := now\<rparr>) (previews m),
                       preview_emitted := preview_emitted m @ [FileChanged previewId filePath]\<rparr>))
         \<and> server_calls (onFileChange now now_restart stop_result start_result previewId filePath m)
           = server_calls m @ (previewId, ServerStop)
               # (if stop_result = None then [(previewId, ServerStart)] else []))
   \<and> (\<not> shouldAutoRestart filePath \<longrightarrow>
         onFileChange now now_restart stop_result start_result previewId filePath m
           = m\<lparr>previews := AList.update previewId (preview\<lparr>lastActivity := now\<rparr>) (previews m),
               preview_emitted := preview_emitted m @ [FileChanged previewId filePath]\<rparr>)"
proof -
  let ?m1 = "m\<lparr>previews := AList.update previewId (preview\<lparr>lastActivity := now\<rparr>) (previews m),
               preview_emitted := preview_emitted m @ [FileChanged previewId filePath]\<rparr>"
  have a: "shouldAutoRestart filePath \<longleftrightarrow> extname filePath \<in> {''.js'', ''.ts'', ''.json'', ''.env''}"
    by (simp add: shouldAutoRestart_def)
  have b: "\<forall>dir stem. (dir = [] \<or> last dir = CHR ''/'') \<and> stem \<noteq> [] \<and> CHR ''/'' \<notin> set stem \<longrightarrow>
         shouldAutoRestart (dir @ stem @ ''.ts'') \<and> \<not> shouldAutoRestart (dir @ stem @ ''.md'')"
    using shouldAutoRestart_ts_md by blast
  have reg1: "map_of (previews ?m1) previewId = Some (preview\<lparr>lastActivity := now\<rparr>)"
    by (simp add: AList.update_conv')
  have c: "onFileChange now now_restart stop_result start_result previewId filePath m
           = snd (restartPreview now_restart stop_result start_result previewId ?m1)"
    if "shouldAutoRestart filePath"
    using that reg by (simp add: onFileChange_def Let_def)
  have c': "server_calls (onFileChange now now_restart stop_result start_result previewId filePath m)
           = server_calls m @ (previewId, ServerStop)
               # (if stop_result = None then [(previewId, ServerStart)] else [])"
    if "shouldAutoRestart filePath"
    unfolding c[OF that] server_calls_restartPreview[OF reg1] by simp
  have d: "onFileChange now now_restart stop_result start_result previewId filePath m = ?m1"
    if "\<not> shouldAutoRestart filePath"
    using that reg by (simp add: onFileChange_def Let_def)
  from c c' have cc: "shouldAutoRestart filePath \<longrightarrow>
         onFileChange now now_restart stop_result start_result previewId filePath m
           = snd (restartPreview now_restart stop_result start_result previewId ?m1)
         \<and> server_calls (onFileChange now now_restart stop_result start_result previewId filePath m)
           = server_calls m @ (previewId, ServerStop)
               # (if stop_result = None then [(previewId, ServerStart)] else [])" by simp
  from d have dd: "\<not> shouldAutoRestart filePath \<longrightarrow>
         onFileChange now now_restart stop_result start_result previewId filePath m = ?m1" by simp
  show ?thesis by (intro conjI) (rule a, rule b, rule cc, rule dd)
qed

theorem file_change_policy_witness:
  "map_of (previews demo_pm) ''preview_1''
     = Some \<lparr>preview_id = ''preview_1'', port = 3000, url = ''http://localhost:3000'',
             status = Running, projectPath = ''proj'', lastActivity = 0\<rparr>
   \<and> shouldAutoRestart ''proj/src/app.ts''
   \<and> \<not> shouldAutoRestart ''proj/README.md''
   \<and> server_calls (onFileChange 10 11 None None ''preview_1'' ''proj/src/app.ts'' demo_pm)
       = [(''preview_1'', ServerStart), (''preview_1'', ServerStop), (''preview_1'', ServerStart)]
   \<and> server_calls (onFileChange 10 11 None None ''preview_1'' ''proj/README.md'' demo_pm)
       = [(''preview_1'', ServerStart)]
   \<and> previews (onFileChange 10 11 None None ''preview_1'' ''proj/README.md'' demo_pm)
       = [(''preview_1'',
           \<lparr>preview_id = ''preview_1'', port = 3000, url = ''http://localhost:3000'',
            status = Running, projectPath = ''proj'', lastActivity = 10\<rparr>)]"
proof -
  let ?p = "\<lparr>preview_id = ''preview_1'', port = 3000, url = ''http://localhost:3000'',
             status = Running, projectPath = ''proj'', lastActivity = 0\<rparr>"
  have r: "map_of (previews demo_pm) ''preview_1'' = Some ?p" by (simp add: demo_pm_eval)
  have sc: "server_calls demo_pm = [(''preview_1'', ServerStart)]"
    and pv: "previews demo_pm = [(''preview_1'', ?p)]" by (simp_all add: demo_pm_eval)
  note t1 = file_change_policy[OF r, of "''proj/src/app.ts''" 10 11 None None]
  note t2 = file_change_policy[OF r, of "''proj/README.md''" 10 11 None None]
  have ts: "shouldAutoRestart ''proj/src/app.ts''"
    using t1[THEN conjunct2, THEN conjunct1, rule_format, of "''proj/src/''" "''app''"] by simp
  have md: "\<not> shouldAutoRestart ''proj/README.md''"
    using t1[THEN conjunct2, THEN conjunct1, rule_format, of "''proj/''" "''README''"] by simp
  from t1 ts have a: "server_calls (onFileChange 10 11 None None ''preview_1'' ''proj/src/app.ts'' demo_pm)
       = server_calls demo_pm @ (''preview_1'', ServerStop)
               # (if (None::string option) = None then [(''preview_1'', ServerStart)] else [])"
    by blast
  from t2 md have b: "onFileChange 10 11 None None ''preview_1'' ''proj/README.md'' demo_pm
       = demo_pm\<lparr>previews := AList.update ''preview_1'' (?p\<lparr>lastActivity := 10\<rparr>) (previews demo_pm),
               preview_emitted := preview_emitted demo_pm @ [FileChanged ''preview_1'' ''proj/README.md'']\<rparr>"
    by blast
  from r ts md show ?thesis unfolding a b by (simp add: sc pv)
qed

subsection \<open>Paths\<close>

lemma extname_examples:
  "extname ''src/app.ts'' = ''.ts'' \<and> extname ''README.md'' = ''.md''
   \<and> extname ''.env'' = [] \<and> extname ''a/..'' = []"
  by (simp add: extname_def last_component_def)

end
